theory Spec2Isabelle
  imports Complex_Main
begin

section \<open>Conventions of the embedding\<close>

text \<open>
  The Python sources \<^verbatim>\<open>lyric_sync.py\<close>, \<^verbatim>\<open>particle.py\<close>, \<^verbatim>\<open>director.py\<close> and the function
  \<^verbatim>\<open>load_assets\<close> of \<^verbatim>\<open>main.py\<close> are embedded as HOL functions.

  \<^item> A cue time, which comes out of a JSON file, is a \<open>pyfloat\<close>: a number, an infinity
    or NaN, compared as Python compares floats. The cue map and the Director are written
    for any type \<open>'t\<close> of cue times, so that they can be read at \<^typ>\<open>real\<close> (times that are
    numbers, as the data model of the specification has them) and at \<open>pyfloat\<close>.
  \<^item> Every other Python \<^verbatim>\<open>float\<close> (frame times, alpha values, clock readings, particle
    coordinates) is a \<^typ>\<open>real\<close>, with exact arithmetic.
  \<^item> An exception is a value of \<open>py_error\<close>; a function that may raise returns
    \<open>py_error + 'a\<close>, or an \<open>outcome\<close> that also carries the object's state at the raise.
  \<^item> A Python \<^verbatim>\<open>str\<close> is a \<^typ>\<open>string\<close>; a character outside ASCII is written as its
    UTF-8 bytes.
  \<^item> \<^verbatim>\<open>None\<close> is \<^const>\<open>None\<close>; the truth value of an optional string is
    "present and not empty", as Python's.
\<close>

datatype py_error =
    ValueError string
  | TypeError string
  | KeyError string
  | ZeroDivisionError

section \<open>Floats read from JSON\<close>

text \<open>
  \<^verbatim>\<open>json.load\<close> returns a float for a number and for the literals \<^verbatim>\<open>Infinity\<close>, \<^verbatim>\<open>-Infinity\<close>
  and \<^verbatim>\<open>NaN\<close>. Every comparison with NaN is false.
\<close>

datatype pyfloat = Number real | PosInf | NegInf | NaN

instantiation pyfloat :: "{zero, one, uminus, ord}"
begin

definition zero_pyfloat :: pyfloat where
  "zero_pyfloat = Number 0"

definition one_pyfloat :: pyfloat where
  "one_pyfloat = Number 1"

fun uminus_pyfloat :: "pyfloat \<Rightarrow> pyfloat" where
  "uminus_pyfloat (Number a) = Number (- a)"
| "uminus_pyfloat PosInf = NegInf"
| "uminus_pyfloat NegInf = PosInf"
| "uminus_pyfloat NaN = NaN"

fun less_pyfloat :: "pyfloat \<Rightarrow> pyfloat \<Rightarrow> bool" where
  "less_pyfloat (Number a) (Number b) = (a < b)"
| "less_pyfloat (Number a) PosInf = True"
| "less_pyfloat NegInf (Number b) = True"
| "less_pyfloat NegInf PosInf = True"
| "less_pyfloat x y = False"

fun less_eq_pyfloat :: "pyfloat \<Rightarrow> pyfloat \<Rightarrow> bool" where
  "less_eq_pyfloat (Number a) (Number b) = (a \<le> b)"
| "less_eq_pyfloat (Number a) PosInf = True"
| "less_eq_pyfloat NegInf (Number b) = True"
| "less_eq_pyfloat NegInf NegInf = True"
| "less_eq_pyfloat NegInf PosInf = True"
| "less_eq_pyfloat PosInf PosInf = True"
| "less_eq_pyfloat x y = False"

instance ..

end

section \<open>\<^verbatim>\<open>lyric_sync.py\<close>\<close>

subsection \<open>LyricEntry\<close>

record 't LyricEntry =
  time :: 't
  lyric_text :: string
  scene :: "string option"

text \<open>The dataclass constructor followed by \<^verbatim>\<open>__post_init__\<close>.\<close>

definition LyricEntry_new ::
  "('t::{ord,zero}) \<Rightarrow> string \<Rightarrow> string option \<Rightarrow> py_error + 't LyricEntry" where
  "LyricEntry_new t x s =
     (if t < 0 then Inl (ValueError ''Lyric time cannot be negative'')
      else Inr \<lparr>time = t, lyric_text = x, scene = s\<rparr>)"

subsection \<open>LyricMap\<close>

text \<open>
  \<open>last_triggered_scene_time\<close> is the attribute \<^verbatim>\<open>_last_triggered_scene_time\<close>, which does
  not exist (\<^const>\<open>None\<close>) until the first call of \<^verbatim>\<open>get_scene_trigger\<close>.
\<close>

record 't LyricMap =
  entries :: "'t LyricEntry list"
  duration :: real
  finale_message :: string
  last_triggered_scene_time :: "'t option"

definition default_finale_message :: string where
  "default_finale_message =
     ''Forever yours,'' @ [CHR 0x0A] @ ''Ahsan '' @ [CHR 0xE2, CHR 0x99, CHR 0xA5]"

text \<open>
  Python's \<^verbatim>\<open>sorted(xs, key=f)\<close> is stable and compares keys with \<^verbatim>\<open><\<close> only. It is modelled
  by insertion with \<open><\<close>: on keys that are totally ordered this is the stable sort
  \<^const>\<open>sort_key\<close> (lemma \<open>py_sorted_key_linorder\<close> below). With NaN among the keys there is no
  sorted order, and the order CPython leaves depends on its merge strategy; of the
  model's result only the membership of the entries is used then.
\<close>

fun py_insort_key :: "('a \<Rightarrow> 'k::ord) \<Rightarrow> 'a \<Rightarrow> 'a list \<Rightarrow> 'a list" where
  "py_insort_key f x [] = [x]"
| "py_insort_key f x (y # ys) =
     (if f y < f x then y # py_insort_key f x ys else x # y # ys)"

definition py_sorted_key :: "('a \<Rightarrow> 'k::ord) \<Rightarrow> 'a list \<Rightarrow> 'a list" where
  "py_sorted_key f xs = foldr (py_insort_key f) xs []"

text \<open>\<^verbatim>\<open>__init__\<close>.\<close>

definition LyricMap_init :: "('t::ord) LyricEntry list \<Rightarrow> real \<Rightarrow> string \<Rightarrow> 't LyricMap" where
  "LyricMap_init es d fm =
     \<lparr>entries = py_sorted_key time es, duration = d, finale_message = fm,
      last_triggered_scene_time = None\<rparr>"

text \<open>
  The parsed cue document, at the types of its schema, with the time of a record any
  float that \<^verbatim>\<open>json.load\<close> can return. A key that is absent is \<^const>\<open>None\<close>; for \<^verbatim>\<open>scene\<close>, read with \<^verbatim>\<open>item.get("scene")\<close>, an absent key and a JSON
  \<^verbatim>\<open>null\<close> are both \<^const>\<open>None\<close>.
\<close>

record 't lyric_item =
  item_time :: "'t option"
  item_text :: "string option"
  item_scene :: "string option"

record 't lyrics_doc =
  doc_lyrics :: "'t lyric_item list option"
  doc_duration_seconds :: "real option"
  doc_finale_message :: "string option"

text \<open>One round of the loop of \<^verbatim>\<open>from_json\<close>: \<^verbatim>\<open>item["time"]\<close>, then \<^verbatim>\<open>item["text"]\<close>, then
  the constructor.\<close>

definition entry_of_item :: "('t::{ord,zero}) lyric_item \<Rightarrow> py_error + 't LyricEntry" where
  "entry_of_item item =
     (case item_time item of
        None \<Rightarrow> Inl (KeyError ''time'')
      | Some t \<Rightarrow>
          (case item_text item of
             None \<Rightarrow> Inl (KeyError ''text'')
           | Some x \<Rightarrow> LyricEntry_new t x (item_scene item)))"

fun load_entries ::
  "('t::{ord,zero}) LyricEntry list \<Rightarrow> 't lyric_item list \<Rightarrow> py_error + 't LyricEntry list" where
  "load_entries acc [] = Inr acc"
| "load_entries acc (item # items) =
     (case entry_of_item item of
        Inl e \<Rightarrow> Inl e
      | Inr entry \<Rightarrow> load_entries (acc @ [entry]) items)"

text \<open>\<^verbatim>\<open>from_json\<close>, from the document that \<^verbatim>\<open>json.load\<close> returned.\<close>

definition from_json :: "('t::{ord,zero}) lyrics_doc \<Rightarrow> py_error + 't LyricMap" where
  "from_json data =
     (case load_entries [] (case doc_lyrics data of None \<Rightarrow> [] | Some items \<Rightarrow> items) of
        Inl e \<Rightarrow> Inl e
      | Inr es \<Rightarrow>
          Inr (LyricMap_init es
                 (case doc_duration_seconds data of None \<Rightarrow> 180 | Some d \<Rightarrow> d)
                 (case doc_finale_message data of None \<Rightarrow> default_finale_message | Some m \<Rightarrow> m)))"

text \<open>
  \<^verbatim>\<open>get_lyric_at\<close>: the loop over \<^verbatim>\<open>enumerate(self.entries)\<close>. \<open>es\<close> is the whole list,
  \<open>i\<close> the index of the entry at the head of the rest.
\<close>

fun lyric_scan ::
  "('t::ord) \<Rightarrow> 't LyricEntry list \<Rightarrow> nat \<Rightarrow> 't LyricEntry list \<Rightarrow> 't LyricEntry option" where
  "lyric_scan t es i [] = (if es \<noteq> [] then Some (last es) else None)"
| "lyric_scan t es i (entry # rest) =
     (if time entry > t then (if i > 0 then Some (es ! (i - 1)) else None)
      else lyric_scan t es (i + 1) rest)"

definition get_lyric_at :: "('t::ord) LyricMap \<Rightarrow> 't \<Rightarrow> 't LyricEntry option" where
  "get_lyric_at m t = lyric_scan t (entries m) 0 (entries m)"

text \<open>Python's truth value of an \<^verbatim>\<open>Optional[str]\<close>.\<close>

definition truthy :: "string option \<Rightarrow> bool" where
  "truthy s = (case s of None \<Rightarrow> False | Some n \<Rightarrow> n \<noteq> [])"

text \<open>
  \<^verbatim>\<open>get_scene_trigger\<close>: the loop over \<^verbatim>\<open>reversed(self.entries)\<close> with the cursor \<open>c\<close>; it
  returns the result and the cursor it leaves.
\<close>

fun trigger_scan :: "('t::ord) \<Rightarrow> 't \<Rightarrow> 't LyricEntry list \<Rightarrow> string option \<times> 't" where
  "trigger_scan t c [] = (None, c)"
| "trigger_scan t c (entry # rest) =
     (if truthy (scene entry) \<and> time entry \<le> t
      then (if time entry > c then (scene entry, time entry) else (None, c))
      else trigger_scan t c rest)"

definition get_scene_trigger ::
  "('t::{ord,uminus,one}) LyricMap \<Rightarrow> 't \<Rightarrow> string option \<times> 't LyricMap" where
  "get_scene_trigger m t =
     (let c = (case last_triggered_scene_time m of None \<Rightarrow> - 1 | Some c \<Rightarrow> c);
          (r, c') = trigger_scan t c (rev (entries m))
      in (r, m\<lparr>last_triggered_scene_time := Some c'\<rparr>))"

definition get_finale_message :: "'t LyricMap \<Rightarrow> string" where
  "get_finale_message m = finale_message m"





section \<open>\<^verbatim>\<open>particle.py\<close>\<close>

text \<open>The colour is the RGB triplet of the \<^verbatim>\<open>rich\<close> colour object.\<close>

record Particle =
  p_x :: real
  p_y :: real
  p_vx :: real
  p_vy :: real
  gravity :: real
  drag :: real
  life :: real
  max_life :: real
  p_char :: string
  p_color :: "nat \<times> nat \<times> nat"

text \<open>\<^verbatim>\<open>update\<close>: the float division \<^verbatim>\<open>dt / self.max_life\<close> raises when \<^verbatim>\<open>max_life\<close> is zero.\<close>

definition Particle_update :: "Particle \<Rightarrow> real \<Rightarrow> py_error + Particle" where
  "Particle_update p dt =
     (let vy1 = p_vy p + gravity p * dt;
          drag_factor = max 0 (1 - drag p * dt);
          vx2 = p_vx p * drag_factor;
          vy2 = vy1 * drag_factor;
          x2 = p_x p + vx2 * dt;
          y2 = p_y p + vy2 * dt
      in if max_life p = 0 then Inl ZeroDivisionError
         else Inr (p\<lparr>p_vy := vy2, p_vx := vx2, p_x := x2, p_y := y2,
                     life := life p - dt / max_life p\<rparr>))"

definition Particle_is_alive :: "Particle \<Rightarrow> bool" where
  "Particle_is_alive p = (life p > 0)"

definition get_brightness :: "Particle \<Rightarrow> real" where
  "get_brightness p = 4 * life p * (1 - life p)"

text \<open>\<open>n\<close> calls of \<^verbatim>\<open>update(dt)\<close> on the same particle, stopping at the first that raises.\<close>

fun update_times :: "nat \<Rightarrow> real \<Rightarrow> Particle \<Rightarrow> py_error + Particle" where
  "update_times 0 dt p = Inr p"
| "update_times (Suc n) dt p =
     (case Particle_update p dt of Inl e \<Rightarrow> Inl e | Inr p' \<Rightarrow> update_times n dt p')"

section \<open>\<^verbatim>\<open>director.py\<close>\<close>

subsection \<open>Constants\<close>

definition TARGET_FPS :: int where "TARGET_FPS = 30"
definition FRAME_TIME :: real where "FRAME_TIME = 1 / real_of_int TARGET_FPS"
definition INITIAL_PARTICLE_BUDGET :: int where "INITIAL_PARTICLE_BUDGET = 500"
definition MIN_PARTICLE_BUDGET :: int where "MIN_PARTICLE_BUDGET = 50"
definition LAG_THRESHOLD_MULTIPLIER :: real where "LAG_THRESHOLD_MULTIPLIER = 3 / 2"
definition FADE_DURATION :: real where "FADE_DURATION = 1 / 2"

text \<open>Python's \<^verbatim>\<open>int(x)\<close> on a float: truncation toward zero.\<close>

definition py_int :: "real \<Rightarrow> int" where
  "py_int r = (if 0 \<le> r then \<lfloor>r\<rfloor> else \<lceil>r\<rceil>)"

subsection \<open>Scenes\<close>

text \<open>
  The scene classes of \<^verbatim>\<open>scenes/\<close>. Of a scene object the Director sees its class (with
  the class attribute \<^verbatim>\<open>name\<close>), the context and, for the finale, the message it was
  constructed with; \<open>sid\<close> is the identity of the object. What a scene does inside
  \<^verbatim>\<open>enter\<close>, \<^verbatim>\<open>exit\<close>, \<^verbatim>\<open>update\<close> and \<^verbatim>\<open>render\<close> is not modelled; that the Director called
  them, in which order and with which arguments, is recorded as a list of events.
\<close>

datatype scene_class =
    SceneIntro | SceneStarfield | SceneMatrixRain | SceneFireworks
  | SceneHeartbeat | SceneWaveform | SceneFinale

fun class_name :: "scene_class \<Rightarrow> string" where
  "class_name SceneIntro = ''intro''"
| "class_name SceneStarfield = ''starfield''"
| "class_name SceneMatrixRain = ''matrix_rain''"
| "class_name SceneFireworks = ''fireworks''"
| "class_name SceneHeartbeat = ''heartbeat''"
| "class_name SceneWaveform = ''waveform''"
| "class_name SceneFinale = ''finale''"

record SceneContext =
  console_width :: int
  console_height :: int
  song_time :: real
  scene_time :: real
  beat_intensity :: real
  is_transitioning :: bool

record Scene =
  sid :: nat
  cls :: scene_class
  scene_context :: SceneContext
  scene_finale_message :: "string option"

text \<open>
  Calling a scene class: \<^verbatim>\<open>SceneClass(context)\<close> is \<open>Scene_new c i ctx None\<close>, and
  \<^verbatim>\<open>SceneClass(context, finale_message=msg)\<close> is \<open>Scene_new c i ctx (Some msg)\<close>. Only
  \<^verbatim>\<open>SceneFinale.__init__\<close> has a parameter \<^verbatim>\<open>finale_message\<close> (with the default message);
  the other classes raise on that keyword.
\<close>

definition Scene_new :: "scene_class \<Rightarrow> nat \<Rightarrow> SceneContext \<Rightarrow> string option \<Rightarrow> py_error + Scene" where
  "Scene_new c i ctx kw =
     (case kw of
        None \<Rightarrow>
          Inr \<lparr>sid = i, cls = c, scene_context = ctx,
               scene_finale_message = (if c = SceneFinale then Some default_finale_message else None)\<rparr>
      | Some msg \<Rightarrow>
          (if c = SceneFinale
           then Inr \<lparr>sid = i, cls = c, scene_context = ctx, scene_finale_message = Some msg\<rparr>
           else Inl (TypeError ''__init__() got an unexpected keyword argument finale_message'')))"

datatype event =
    Construct nat scene_class SceneContext "string option"
  | Enter nat
  | Exit nat
  | Update nat real SceneContext
  | Render nat nat real

subsection \<open>Director\<close>

text \<open>
  \<^verbatim>\<open>DirectorState\<close>. Its fields \<^verbatim>\<open>current_scene\<close>, \<^verbatim>\<open>next_scene\<close> and \<^verbatim>\<open>transition_alpha\<close> are
  never read or written by the Director and are left out; its \<^verbatim>\<open>lyric_map\<close> is the same
  object as the Director's.
\<close>

record 't DirectorState =
  start_time :: real
  current_time :: real
  is_paused :: bool
  pause_offset :: real
  current_lyric :: "'t LyricEntry option"
  pending_quit :: bool
  last_frame_time :: real
  fps :: real
  particle_budget :: int

text \<open>
  The Director object. \<open>calls\<close> lists the calls made so far on scene objects and scene
  classes, oldest first; \<open>next_sid\<close> is the identity the next constructed object gets.
\<close>

record 't Director =
  lyric_map :: "'t LyricMap option"
  scenes :: "string \<rightharpoonup> scene_class"
  current_scene :: "Scene option"
  next_scene_name :: "string option"
  transition_alpha :: real
  transitioning_scene :: "Scene option"
  state :: "'t DirectorState"
  scene_start_time :: real
  calls :: "event list"
  next_sid :: nat

datatype 't outcome = Returned "'t Director" | Raised py_error "'t Director"

definition Director_init :: "'t LyricMap option \<Rightarrow> 't Director" where
  "Director_init lm =
     \<lparr>lyric_map = lm, scenes = Map.empty, current_scene = None, next_scene_name = None,
      transition_alpha = 0, transitioning_scene = None,
      state = \<lparr>start_time = 0, current_time = 0, is_paused = False, pause_offset = 0,
               current_lyric = None, pending_quit = False, last_frame_time = 0, fps = 0,
               particle_budget = INITIAL_PARTICLE_BUDGET\<rparr>,
      scene_start_time = 0, calls = [], next_sid = 0\<rparr>"

definition register_scene :: "'t Director \<Rightarrow> string \<Rightarrow> scene_class \<Rightarrow> 't Director" where
  "register_scene d name scene_class = d\<lparr>scenes := (scenes d)(name \<mapsto> scene_class)\<rparr>"

definition transition_to :: "'t Director \<Rightarrow> string \<Rightarrow> 't outcome" where
  "transition_to d scene_name =
     (if scenes d scene_name = None
      then Raised (ValueError (''Unknown scene: '' @ scene_name)) d
      else Returned (d\<lparr>next_scene_name := Some scene_name, transition_alpha := 0\<rparr>))"

text \<open>\<^verbatim>\<open>if self.current_scene: self.current_scene.exit()\<close>\<close>

definition exit_current :: "'t Director \<Rightarrow> 't Director" where
  "exit_current d =
     (case current_scene d of
        None \<Rightarrow> d
      | Some s \<Rightarrow> d\<lparr>calls := calls d @ [Exit (sid s)]\<rparr>)"

text \<open>The last three assignments of \<^verbatim>\<open>_complete_transition\<close>; \<open>now\<close> is \<^verbatim>\<open>time.time()\<close>.\<close>

definition finish_transition :: "real \<Rightarrow> 't Director \<Rightarrow> 't Director" where
  "finish_transition now d =
     d\<lparr>next_scene_name := None, transition_alpha := 0, scene_start_time := now\<rparr>"

definition complete_transition :: "real \<Rightarrow> 't Director \<Rightarrow> 't outcome" where
  "complete_transition now d =
     (case transitioning_scene d of
        Some ts \<Rightarrow>
          Returned (finish_transition now
            ((exit_current d)\<lparr>current_scene := Some ts, transitioning_scene := None\<rparr>))
      | None \<Rightarrow>
          (case next_scene_name d of
             None \<Rightarrow> Returned (finish_transition now d)
           | Some n \<Rightarrow>
               (case scenes d n of
                  None \<Rightarrow> Returned (finish_transition now d)
                | Some SceneClass \<Rightarrow>
                    (let ctx = \<lparr>console_width = 80, console_height = 24,
                                song_time = current_time (state d), scene_time = 0,
                                beat_intensity = 0, is_transitioning = False\<rparr>;
                         d1 = exit_current d;
                         kw = (case lyric_map d of
                                 None \<Rightarrow> None
                               | Some lm \<Rightarrow> if n = ''finale'' then Some (finale_message lm) else None)
                     in case Scene_new SceneClass (next_sid d1) ctx kw of
                          Inl e \<Rightarrow> Raised e d1
                        | Inr s \<Rightarrow>
                            Returned (finish_transition now
                              (d1\<lparr>current_scene := Some s,
                                  next_sid := Suc (next_sid d1),
                                  calls := calls d1 @
                                    [Construct (sid s) SceneClass ctx kw, Enter (sid s)]\<rparr>))))))"

definition update_scenes ::
  "real \<Rightarrow> 't Director \<Rightarrow> real \<Rightarrow> SceneContext \<Rightarrow> 't outcome" where
  "update_scenes now d dt ctx =
     (let d1 = (case current_scene d of
                  None \<Rightarrow> d
                | Some s \<Rightarrow> d\<lparr>calls := calls d @ [Update (sid s) dt ctx]\<rparr>);
          d2 = (case transitioning_scene d1 of
                  None \<Rightarrow> d1
                | Some s \<Rightarrow> d1\<lparr>calls := calls d1 @ [Update (sid s) dt ctx]\<rparr>)
      in case next_scene_name d2 of
           None \<Rightarrow> Returned d2
         | Some n \<Rightarrow>
             (let d3 = d2\<lparr>transition_alpha := transition_alpha d2 + dt / FADE_DURATION\<rparr>
              in if transition_alpha d3 \<ge> 1 then complete_transition now d3
                 else Returned d3))"

text \<open>\<^verbatim>\<open>render_scenes\<close>; the console is named by a number.\<close>

definition render_scenes :: "'t Director \<Rightarrow> nat \<Rightarrow> 't Director" where
  "render_scenes d console =
     (case current_scene d of
        None \<Rightarrow> d
      | Some cs \<Rightarrow>
          (case transitioning_scene d of
             Some ts \<Rightarrow>
               (let old_alpha = 1 - transition_alpha d;
                    new_alpha = transition_alpha d
                in d\<lparr>calls := calls d @
                       [Render (sid cs) console old_alpha, Render (sid ts) console new_alpha]\<rparr>)
           | None \<Rightarrow> d\<lparr>calls := calls d @ [Render (sid cs) console 1]\<rparr>))"

definition get_current_scene_name :: "'t Director \<Rightarrow> string option" where
  "get_current_scene_name d =
     (case current_scene d of None \<Rightarrow> None | Some s \<Rightarrow> Some (class_name (cls s)))"

definition check_scene_triggers ::
  "('t::{ord,uminus,one}) Director \<Rightarrow> 't \<Rightarrow> 't outcome" where
  "check_scene_triggers d t =
     (case lyric_map d of
        None \<Rightarrow> Returned d
      | Some lm \<Rightarrow>
          (let (r, lm') = get_scene_trigger lm t;
               d1 = d\<lparr>lyric_map := Some lm'\<rparr>
           in case r of
                None \<Rightarrow> Returned d1
              | Some scene_name \<Rightarrow>
                  if scene_name \<noteq> [] \<and> Some scene_name \<noteq> get_current_scene_name d1
                  then transition_to d1 scene_name
                  else Returned d1))"

definition update_lyric :: "('t::ord) Director \<Rightarrow> 't \<Rightarrow> 't Director" where
  "update_lyric d t =
     (case lyric_map d of
        None \<Rightarrow> d
      | Some lm \<Rightarrow> d\<lparr>state := (state d)\<lparr>current_lyric := get_lyric_at lm t\<rparr>\<rparr>)"

definition monitor_performance :: "'t Director \<Rightarrow> real \<Rightarrow> 't Director" where
  "monitor_performance d frame_time =
     (let s1 = (state d)\<lparr>last_frame_time := frame_time\<rparr>;
          s2 = (if frame_time > 0 then s1\<lparr>fps := 1 / frame_time\<rparr> else s1);
          s3 = (if frame_time > FRAME_TIME * LAG_THRESHOLD_MULTIPLIER
                then s2\<lparr>particle_budget :=
                          max MIN_PARTICLE_BUDGET
                              (py_int (real_of_int (particle_budget s2) * (3 / 4)))\<rparr>
                else s2)
      in d\<lparr>state := s3\<rparr>)"

subsection \<open>What \<^verbatim>\<open>main.py\<close> does to the Director\<close>

text \<open>
  Besides calling methods, \<^verbatim>\<open>main.py\<close> reaches into the Director in three places. Before the
  first frame \<^verbatim>\<open>run_main_loop\<close> calls \<^verbatim>\<open>director.lyric_map.get_scene_trigger(0.0)\<close> itself, which
  moves the cursor of the Director's cue map. Each frame it assigns
  \<^verbatim>\<open>director.state.current_time = current_time\<close>, and \<^verbatim>\<open>build_frame\<close> replaces the context of the
  current scene and renders that scene into the frame buffer.
  In \<^verbatim>\<open>build_frame\<close> the Director has no attribute \<^verbatim>\<open>current_state\<close> or \<^verbatim>\<open>song_time\<close>, so the alpha
  is 1.0 and the context has song time and scene time 0.
\<close>

definition query_scene_trigger :: "('t::{ord,uminus,one}) Director \<Rightarrow> 't \<Rightarrow> 't Director" where
  "query_scene_trigger d t =
     (case lyric_map d of
        None \<Rightarrow> d
      | Some lm \<Rightarrow> d\<lparr>lyric_map := Some (snd (get_scene_trigger lm t))\<rparr>)"

definition set_current_time :: "'t Director \<Rightarrow> real \<Rightarrow> 't Director" where
  "set_current_time d current_time' = d\<lparr>state := (state d)\<lparr>current_time := current_time'\<rparr>\<rparr>"

definition build_frame :: "'t Director \<Rightarrow> nat \<Rightarrow> real \<Rightarrow> int \<Rightarrow> int \<Rightarrow> 't Director" where
  "build_frame d buffer beat width height =
     (case current_scene d of
        None \<Rightarrow> d
      | Some sc \<Rightarrow>
          (let ctx = \<lparr>console_width = width, console_height = height, song_time = 0,
                      scene_time = 0, beat_intensity = beat, is_transitioning = False\<rparr>
           in d\<lparr>current_scene := Some (sc\<lparr>scene_context := ctx\<rparr>),
                calls := calls d @ [Render (sid sc) buffer 1]\<rparr>))"

subsection \<open>Sequences of calls\<close>

text \<open>
  What a caller can do to a Director: invoke its methods, and what \<^verbatim>\<open>main.py\<close> does to it
  directly. A caller does a list of these in order, stopping at the first exception as an
  uncaught exception does.
\<close>

datatype 't call =
    RegisterScene string scene_class
  | TransitionTo string
  | CompleteTransition real
  | UpdateScenes real real SceneContext
  | RenderScenes nat
  | CheckSceneTriggers 't
  | UpdateLyric 't
  | MonitorPerformance real
  | QuerySceneTrigger 't
  | SetCurrentTime real
  | BuildFrame nat real int int

fun invoke :: "('t::{ord,uminus,one}) Director \<Rightarrow> 't call \<Rightarrow> 't outcome" where
  "invoke d (RegisterScene name c) = Returned (register_scene d name c)"
| "invoke d (TransitionTo name) = transition_to d name"
| "invoke d (CompleteTransition now) = complete_transition now d"
| "invoke d (UpdateScenes now dt ctx) = update_scenes now d dt ctx"
| "invoke d (RenderScenes console) = Returned (render_scenes d console)"
| "invoke d (CheckSceneTriggers t) = check_scene_triggers d t"
| "invoke d (UpdateLyric t) = Returned (update_lyric d t)"
| "invoke d (MonitorPerformance ft) = Returned (monitor_performance d ft)"
| "invoke d (QuerySceneTrigger t) = Returned (query_scene_trigger d t)"
| "invoke d (SetCurrentTime t) = Returned (set_current_time d t)"
| "invoke d (BuildFrame buffer beat width height) =
     Returned (build_frame d buffer beat width height)"

fun invoke_all :: "('t::{ord,uminus,one}) Director \<Rightarrow> 't call list \<Rightarrow> 't outcome" where
  "invoke_all d [] = Returned d"
| "invoke_all d (c # cs) =
     (case invoke d c of
        Returned d' \<Rightarrow> invoke_all d' cs
      | Raised e d' \<Rightarrow> Raised e d')"

text \<open>The frame durations of the \<^verbatim>\<open>update_scenes\<close> calls in a list of calls.\<close>

fun tick_durations :: "'t call list \<Rightarrow> real list" where
  "tick_durations [] = []"
| "tick_durations (UpdateScenes now dt ctx # cs) = dt # tick_durations cs"
| "tick_durations (c # cs) = tick_durations cs"

section \<open>\<^verbatim>\<open>main.py\<close>: \<^verbatim>\<open>load_assets\<close>\<close>

text \<open>
  A call of the class \<^verbatim>\<open>LyricMap\<close> with keyword arguments only, as \<^verbatim>\<open>load_assets\<close> writes
  it. The parameters of \<^verbatim>\<open>__init__\<close> after \<^verbatim>\<open>self\<close> are \<^verbatim>\<open>entries\<close> (required), \<^verbatim>\<open>duration\<close> and
  \<^verbatim>\<open>finale_message\<close> (with defaults). Python raises \<^verbatim>\<open>TypeError\<close> for a keyword that is no
  parameter and for a required parameter that is not given. Argument values are covered
  at the annotated types of the parameters; a value of another type is answered with
  \<^verbatim>\<open>TypeError\<close> here, which is outside what the sources do.
\<close>

datatype 't pyval = PyList "'t LyricEntry list" | PyFloat real | PyStr string

definition LyricMap_params :: "string list" where
  "LyricMap_params = [''entries'', ''duration'', ''finale_message'']"

definition LyricMap_call :: "(string \<times> ('t::ord) pyval) list \<Rightarrow> py_error + 't LyricMap" where
  "LyricMap_call kwargs =
     (case filter (\<lambda>k. k \<notin> set LyricMap_params) (map fst kwargs) of
        k # ks \<Rightarrow> Inl (TypeError (''__init__() got an unexpected keyword argument '' @ k))
      | [] \<Rightarrow>
          (case map_of kwargs ''entries'' of
             None \<Rightarrow> Inl (TypeError ''__init__() missing 1 required positional argument: entries'')
           | Some (PyList es) \<Rightarrow>
               (case (map_of kwargs ''duration'', map_of kwargs ''finale_message'') of
                  (None, None) \<Rightarrow> Inr (LyricMap_init es 180 default_finale_message)
                | (Some (PyFloat x), None) \<Rightarrow> Inr (LyricMap_init es x default_finale_message)
                | (None, Some (PyStr f)) \<Rightarrow> Inr (LyricMap_init es 180 f)
                | (Some (PyFloat x), Some (PyStr f)) \<Rightarrow> Inr (LyricMap_init es x f)
                | _ \<Rightarrow> Inl (TypeError ''argument type''))
           | Some _ \<Rightarrow> Inl (TypeError ''argument type'')))"

text \<open>
  \<^verbatim>\<open>load_assets\<close>. \<open>lyrics_exists\<close> and \<open>audio_exists\<close> are the answers of \<^verbatim>\<open>Path.exists\<close>,
  \<open>loaded\<close> is what \<^verbatim>\<open>open\<close> and \<^verbatim>\<open>json.load\<close> give inside \<^verbatim>\<open>from_json\<close> (an exception or the
  document). The \<^verbatim>\<open>try\<close> block turns every exception of \<^verbatim>\<open>from_json\<close> into
  \<^verbatim>\<open>lyric_map = None\<close>; the \<^verbatim>\<open>else\<close> branch is outside the \<^verbatim>\<open>try\<close> block. Console output is
  not modelled.
\<close>

definition load_assets ::
  "bool \<Rightarrow> py_error + ('t::{ord,zero}) lyrics_doc \<Rightarrow> bool \<Rightarrow> string
     \<Rightarrow> py_error + ('t LyricMap option \<times> string option)"
where
  "load_assets lyrics_exists loaded audio_exists audio_path =
     (case (if lyrics_exists
            then (case loaded of
                    Inl e \<Rightarrow> Inr None
                  | Inr data \<Rightarrow>
                      (case from_json data of Inl e \<Rightarrow> Inr None | Inr m \<Rightarrow> Inr (Some m)))
            else (case LyricMap_call
                         [(''lyrics'', PyList []), (''finale_message'', PyStr default_finale_message)] of
                    Inl e \<Rightarrow> Inl e
                  | Inr m \<Rightarrow> Inr (Some m))) of
        Inl e \<Rightarrow> Inl e
      | Inr lm \<Rightarrow>
          if \<not> audio_exists then Inr (lm, None) else Inr (lm, Some audio_path))"

subsection \<open>What holds of every Director a caller can reach\<close>

text \<open>The scene object an event is about.\<close>

fun event_sid :: "event \<Rightarrow> nat" where
  "event_sid (Construct i c ctx kw) = i"
| "event_sid (Enter i) = i"
| "event_sid (Exit i) = i"
| "event_sid (Update i dt ctx) = i"
| "event_sid (Render i console a) = i"

text \<open>
  No assignment in \<^verbatim>\<open>director.py\<close> gives \<^verbatim>\<open>transitioning_scene\<close> a scene; a pending name has
  passed the check of \<^verbatim>\<open>transition_to\<close>; the objects seen so far are older than the next
  one constructed.
\<close>

definition director_inv :: "'t Director \<Rightarrow> bool" where
  "director_inv d =
     (transitioning_scene d = None
      \<and> (case next_scene_name d of None \<Rightarrow> True | Some n \<Rightarrow> scenes d n \<noteq> None)
      \<and> (case current_scene d of None \<Rightarrow> True | Some s \<Rightarrow> sid s < next_sid d)
      \<and> list_all (\<lambda>ev. event_sid ev < next_sid d) (calls d))"

section \<open>Concrete objects used to run the model\<close>

text \<open>The cue map of the specification's scenario: two cues, at 0 s and at 10 s.\<close>

definition scenario_map :: "real LyricMap" where
  "scenario_map =
     LyricMap_init
       [\<lparr>time = 10, lyric_text = ''hi'', scene = Some ''starfield''\<rparr>,
        \<lparr>time = 0, lyric_text = '''', scene = Some ''intro''\<rparr>]
       20 default_finale_message"

text \<open>
  The calls \<^verbatim>\<open>main\<close> and \<^verbatim>\<open>run_main_loop\<close> make before the first frame, with three of the
  scenes: registration, then \<^verbatim>\<open>transition_to("intro")\<close> and \<^verbatim>\<open>_complete_transition()\<close>.
\<close>

definition startup_calls :: "'t call list" where
  "startup_calls =
     [RegisterScene ''intro'' SceneIntro,
      RegisterScene ''starfield'' SceneStarfield,
      RegisterScene ''finale'' SceneFinale,
      TransitionTo ''intro'',
      CompleteTransition 0]"

definition frame_context :: SceneContext where
  "frame_context =
     \<lparr>console_width = 80, console_height = 24, song_time = 10, scene_time = 10,
      beat_intensity = 0, is_transitioning = True\<rparr>"

text \<open>The context \<^verbatim>\<open>_complete_transition\<close> builds when the song time is 12 s.\<close>

definition finale_context :: SceneContext where
  "finale_context =
     \<lparr>console_width = 80, console_height = 24, song_time = 12, scene_time = 0,
      beat_intensity = 0, is_transitioning = False\<rparr>"

definition initial_context :: SceneContext where
  "initial_context =
     \<lparr>console_width = 80, console_height = 24, song_time = 0, scene_time = 0,
      beat_intensity = 0, is_transitioning = False\<rparr>"

section \<open>Properties of the cue map\<close>

subsection \<open>Sorting\<close>



lemma set_py_insort_key: "set (py_insort_key f x ys) = insert x (set ys)"
  by (induction ys) auto

lemma set_py_sorted_key: "set (py_sorted_key f xs) = set xs"
  unfolding py_sorted_key_def by (induction xs) (simp_all add: set_py_insort_key)

subsection \<open>\<^verbatim>\<open>get_lyric_at\<close>\<close>














subsection \<open>\<^verbatim>\<open>get_scene_trigger\<close>\<close>
















subsection \<open>Entries never carry a negative time\<close>

lemma pyfloat_not_negative:
  "\<not> (t :: pyfloat) < 0 \<Longrightarrow> t \<noteq> NaN \<Longrightarrow> 0 \<le> t"
  by (cases t) (simp_all add: zero_pyfloat_def)

lemma LyricEntry_new_time: "LyricEntry_new t x s = Inr e \<Longrightarrow> \<not> time e < 0"
  by (auto simp: LyricEntry_new_def split: if_splits)

lemma entry_of_item_time: "entry_of_item item = Inr e \<Longrightarrow> \<not> time e < 0"
  by (auto simp: entry_of_item_def split: option.splits dest: LyricEntry_new_time)

lemma load_entries_time:
  "load_entries acc items = Inr es \<Longrightarrow> \<forall>e \<in> set acc. \<not> time e < 0 \<Longrightarrow>
   \<forall>e \<in> set es. \<not> time e < 0"
proof (induction items arbitrary: acc)
  case Nil
  then show ?case by simp
next
  case (Cons item items)
  from Cons.prems(1) obtain entry where
    e: "entry_of_item item = Inr entry" and r: "load_entries (acc @ [entry]) items = Inr es"
    by (auto split: sum.splits)
  have "\<forall>e \<in> set (acc @ [entry]). \<not> time e < 0"
    using Cons.prems(2) entry_of_item_time [OF e] by simp
  with r show ?case by (rule Cons.IH)
qed

lemma entry_of_item_negative:
  "item_time item = Some t \<Longrightarrow> t < 0 \<Longrightarrow> \<exists>err. entry_of_item item = Inl err"
  by (simp add: entry_of_item_def LyricEntry_new_def split: option.splits)

lemma load_entries_negative:
  "item \<in> set items \<Longrightarrow> item_time item = Some t \<Longrightarrow> t < 0 \<Longrightarrow> \<exists>err. load_entries acc items = Inl err"
proof (induction items arbitrary: acc)
  case Nil
  then show ?case by simp
next
  case (Cons a items)
  show ?case
  proof (cases "entry_of_item a")
    case (Inl err)
    then show ?thesis by simp
  next
    case (Inr entry)
    then have "a \<noteq> item" using entry_of_item_negative [OF Cons.prems(2,3)] by auto
    with Cons.prems(1) have "item \<in> set items" by auto
    then obtain err where "load_entries (acc @ [entry]) items = Inl err"
      using Cons.IH Cons.prems(2,3) by blast
    with Inr show ?thesis by simp
  qed
qed

text \<open>
  Claim C10 does not hold as it is written. \<^verbatim>\<open>__post_init__\<close> tests \<^verbatim>\<open>self.time < 0\<close>, which is
  false for NaN, and \<^verbatim>\<open>json.load\<close> reads the literal \<^verbatim>\<open>NaN\<close>: a cue file with such a record
  loads, and the entry's time is not \<open>\<ge> 0\<close>.
\<close>

theorem nan_time_enters_counterexample:
  "from_json
     \<lparr>doc_lyrics = Some [\<lparr>item_time = Some NaN, item_text = Some ''la'', item_scene = None\<rparr>],
      doc_duration_seconds = None, doc_finale_message = None\<rparr>
   = Inr \<lparr>entries = [\<lparr>time = NaN, lyric_text = ''la'', scene = None\<rparr>], duration = 180,
          finale_message = default_finale_message, last_triggered_scene_time = None\<rparr>
   \<and> LyricEntry_new NaN ''la'' None = Inr \<lparr>time = NaN, lyric_text = ''la'', scene = None\<rparr>
   \<and> \<not> 0 \<le> time \<lparr>time = NaN, lyric_text = ''la'', scene = None\<rparr>"
  by (simp add: from_json_def entry_of_item_def LyricEntry_new_def LyricMap_init_def
        py_sorted_key_def zero_pyfloat_def)

text \<open>
  Claim C10, amended. Constructing a \<^verbatim>\<open>LyricEntry\<close> with a negative time (a negative number
  or \<^verbatim>\<open>-Infinity\<close>) raises \<^verbatim>\<open>ValueError\<close>, so an entry that was constructed has no negative
  time, and its time is \<open>\<ge> 0\<close> unless it is NaN. The same holds of every entry of a
  \<^verbatim>\<open>LyricMap\<close> built from constructed entries and of every entry of a map that \<^verbatim>\<open>from_json\<close>
  returned; a document holding a record with a negative time makes \<^verbatim>\<open>from_json\<close> raise, so
  a negative time stamp never enters a cue map silently.
\<close>

theorem no_negative_time_enters:
  "(\<forall>(t :: pyfloat) x s.
      t < 0 \<longrightarrow> LyricEntry_new t x s = Inl (ValueError ''Lyric time cannot be negative''))
   \<and> (\<forall>(t :: pyfloat) x s e. LyricEntry_new t x s = Inr e \<longrightarrow>
         \<not> time e < 0 \<and> (time e \<noteq> NaN \<longrightarrow> 0 \<le> time e))
   \<and> (\<forall>(es :: pyfloat LyricEntry list) d fm.
         (\<forall>e \<in> set es. \<exists>t x s. LyricEntry_new t x s = Inr e) \<longrightarrow>
         (\<forall>e \<in> set (entries (LyricMap_init es d fm)).
            \<not> time e < 0 \<and> (time e \<noteq> NaN \<longrightarrow> 0 \<le> time e)))
   \<and> (\<forall>(data :: pyfloat lyrics_doc) m. from_json data = Inr m \<longrightarrow>
         (\<forall>e \<in> set (entries m). \<not> time e < 0 \<and> (time e \<noteq> NaN \<longrightarrow> 0 \<le> time e)))
   \<and> (\<forall>(data :: pyfloat lyrics_doc) items item t.
         doc_lyrics data = Some items \<and> item \<in> set items \<and> item_time item = Some t \<and> t < 0 \<longrightarrow>
         (\<exists>err. from_json data = Inl err))"
proof -
  have a: "t < 0 \<longrightarrow> LyricEntry_new t x s = Inl (ValueError ''Lyric time cannot be negative'')"
    for t :: pyfloat and x s by (simp add: LyricEntry_new_def)
  have b: "LyricEntry_new t x s = Inr e \<longrightarrow> \<not> time e < 0 \<and> (time e \<noteq> NaN \<longrightarrow> 0 \<le> time e)"
    for t :: pyfloat and x s e
    using LyricEntry_new_time [of t x s e] pyfloat_not_negative [of "time e"] by blast
  have c: "(\<forall>e \<in> set es. \<exists>t x s. LyricEntry_new t x s = Inr e) \<longrightarrow>
         (\<forall>e \<in> set (entries (LyricMap_init es d fm)).
            \<not> time e < 0 \<and> (time e \<noteq> NaN \<longrightarrow> 0 \<le> time e))"
    for es :: "pyfloat LyricEntry list" and d fm
  proof
    assume h: "\<forall>e \<in> set es. \<exists>t x s. LyricEntry_new t x s = Inr e"
    show "\<forall>e \<in> set (entries (LyricMap_init es d fm)).
            \<not> time e < 0 \<and> (time e \<noteq> NaN \<longrightarrow> 0 \<le> time e)"
    proof
      fix e assume "e \<in> set (entries (LyricMap_init es d fm))"
      then have "e \<in> set es" by (simp add: LyricMap_init_def set_py_sorted_key)
      with h obtain t x s where "LyricEntry_new t x s = Inr e" by blast
      with b show "\<not> time e < 0 \<and> (time e \<noteq> NaN \<longrightarrow> 0 \<le> time e)" by blast
    qed
  qed
  have d: "from_json data = Inr m \<longrightarrow>
         (\<forall>e \<in> set (entries m). \<not> time e < 0 \<and> (time e \<noteq> NaN \<longrightarrow> 0 \<le> time e))"
    for data :: "pyfloat lyrics_doc" and m
  proof
    assume "from_json data = Inr m"
    then obtain es where
      l: "load_entries [] (case doc_lyrics data of None \<Rightarrow> [] | Some items \<Rightarrow> items) = Inr es"
      and m: "set (entries m) = set es"
      by (auto simp: from_json_def LyricMap_init_def set_py_sorted_key split: sum.splits)
    from load_entries_time [OF l] m have "\<forall>e \<in> set (entries m). \<not> time e < 0" by simp
    then show "\<forall>e \<in> set (entries m). \<not> time e < 0 \<and> (time e \<noteq> NaN \<longrightarrow> 0 \<le> time e)"
      using pyfloat_not_negative by blast
  qed
  have e: "doc_lyrics data = Some items \<and> item \<in> set items \<and> item_time item = Some t \<and> t < 0 \<longrightarrow>
         (\<exists>err. from_json data = Inl err)"
    for data :: "pyfloat lyrics_doc" and items item t
  proof
    assume h: "doc_lyrics data = Some items \<and> item \<in> set items \<and> item_time item = Some t \<and> t < 0"
    then obtain err where "load_entries [] items = Inl err"
      using load_entries_negative by blast
    with h show "\<exists>err. from_json data = Inl err" by (simp add: from_json_def)
  qed
  from a b c d e show ?thesis by blast
qed

theorem no_negative_time_enters_witness:
  "LyricEntry_new (Number (- 1)) ''x'' None = Inl (ValueError ''Lyric time cannot be negative'')
   \<and> LyricEntry_new NegInf ''x'' None = Inl (ValueError ''Lyric time cannot be negative'')
   \<and> (\<exists>m. from_json
             \<lparr>doc_lyrics = Some [\<lparr>item_time = Some (Number 3), item_text = Some ''la'',
                                   item_scene = None\<rparr>],
              doc_duration_seconds = None, doc_finale_message = None\<rparr> = Inr m
          \<and> (\<forall>e \<in> set (entries m). \<not> time e < 0 \<and> (time e \<noteq> NaN \<longrightarrow> 0 \<le> time e)))
   \<and> (\<exists>err. from_json
             \<lparr>doc_lyrics = Some [\<lparr>item_time = Some (Number (- 2)), item_text = Some ''la'',
                                   item_scene = None\<rparr>],
              doc_duration_seconds = None, doc_finale_message = None\<rparr> = Inl err)"
proof -
  let ?good = "\<lparr>doc_lyrics = Some [\<lparr>item_time = Some (Number 3), item_text = Some ''la'',
                                   item_scene = None\<rparr>],
              doc_duration_seconds = None, doc_finale_message = None\<rparr>"
  let ?item = "\<lparr>item_time = Some (Number (- 2)), item_text = Some ''la'', item_scene = None\<rparr>"
  let ?bad = "\<lparr>doc_lyrics = Some [?item], doc_duration_seconds = None, doc_finale_message = None\<rparr>"
  note c10 = no_negative_time_enters
  note raises = c10 [THEN conjunct1, rule_format]
  note loaded = c10 [THEN conjunct2, THEN conjunct2, THEN conjunct2, THEN conjunct1, rule_format]
  note refused = c10 [THEN conjunct2, THEN conjunct2, THEN conjunct2, THEN conjunct2, rule_format]
  have n1: "Number (- 1) < 0" and n2: "NegInf < 0" and n3: "Number (- 2) < 0"
    by (simp_all add: zero_pyfloat_def)
  have a: "LyricEntry_new (Number (- 1)) ''x'' None = Inl (ValueError ''Lyric time cannot be negative'')"
    using n1 by (rule raises)
  have a': "LyricEntry_new NegInf ''x'' None = Inl (ValueError ''Lyric time cannot be negative'')"
    using n2 by (rule raises)
  obtain m where m: "from_json ?good = Inr m"
    by (simp add: from_json_def entry_of_item_def LyricEntry_new_def zero_pyfloat_def)
  have b: "\<forall>e \<in> set (entries m). \<not> time e < 0 \<and> (time e \<noteq> NaN \<longrightarrow> 0 \<le> time e)"
    using loaded [OF m] by blast
  have "doc_lyrics ?bad = Some [?item] \<and> ?item \<in> set [?item]
        \<and> item_time ?item = Some (Number (- 2)) \<and> Number (- 2) < 0"
    using n3 by simp
  then have c: "\<exists>err. from_json ?bad = Inl err"
    by (rule refused)
  from a a' m b c show ?thesis by blast
qed

subsection \<open>Particles\<close>

text \<open>
  Claim C9. For a particle with gravity 9.8, drag 0 and \<^verbatim>\<open>max_life\<close> 2.0, every \<^verbatim>\<open>update(dt)\<close>
  returns and lowers \<^verbatim>\<open>life\<close> by \<open>dt / max_life\<close>, leaving \<^verbatim>\<open>max_life\<close> as it is; starting
  from life 1.0, four calls of \<^verbatim>\<open>update(0.5)\<close> leave life 0, and \<^verbatim>\<open>is_alive\<close> is false.
  (The numbers 0.5, 2.0 and the lives 0.75, 0.5, 0.25, 0 are binary fractions, so the
  exact arithmetic of the model is also that of the floats.)
\<close>

theorem particle_life_after_four_updates:
  "(\<forall>dt. \<exists>p'. Particle_update (p\<lparr>gravity := 9.8, drag := 0, max_life := 2\<rparr>) dt = Inr p'
           \<and> life p' = life p - dt / 2 \<and> max_life p' = 2 \<and> gravity p' = 9.8 \<and> drag p' = 0)
   \<and> (\<exists>p4. update_times 4 (1 / 2) (p\<lparr>gravity := 9.8, drag := 0, life := 1, max_life := 2\<rparr>) = Inr p4
           \<and> life p4 = 0 \<and> \<not> Particle_is_alive p4)"
  by (simp add: Particle_update_def Particle_is_alive_def Let_def numeral_eq_Suc)

section \<open>Properties of the Director\<close>

subsection \<open>The performance governor\<close>

lemma py_int_three_quarters:
  "0 \<le> b \<Longrightarrow> py_int (real_of_int b * (3 / 4)) = (3 * b) div 4"
proof -
  assume nonneg: "0 \<le> b"
  have eq: "real_of_int b * (3 / 4) = real_of_int (3 * b) / real_of_int 4" by simp
  have "py_int (real_of_int b * (3 / 4)) = \<lfloor>real_of_int b * (3 / 4)\<rfloor>"
    using nonneg by (simp add: py_int_def)
  also have "\<dots> = \<lfloor>real_of_int (3 * b) / real_of_int 4\<rfloor>"
    by (simp only: eq)
  also have "\<dots> = (3 * b) div 4"
    by (rule floor_divide_of_int_eq)
  finally show ?thesis .
qed

lemma monitor_performance_budget_floor:
  "MIN_PARTICLE_BUDGET \<le> particle_budget (state d) \<Longrightarrow>
   MIN_PARTICLE_BUDGET \<le> particle_budget (state (monitor_performance d ft))"
  by (simp add: monitor_performance_def Let_def)

lemma monitor_performance_fold_floor:
  "MIN_PARTICLE_BUDGET \<le> particle_budget (state d) \<Longrightarrow>
   MIN_PARTICLE_BUDGET \<le> particle_budget (state (foldl monitor_performance d fts))"
  by (induction fts arbitrary: d) (simp_all add: monitor_performance_budget_floor)

lemma state_transition_to:
  "transition_to d n = Returned d' \<or> transition_to d n = Raised e d' \<Longrightarrow> state d' = state d"
  by (auto simp: transition_to_def split: if_splits)

lemma state_complete_transition:
  "complete_transition now d = Returned d' \<or> complete_transition now d = Raised e d' \<Longrightarrow>
   state d' = state d"
  by (auto simp: complete_transition_def finish_transition_def exit_current_def Let_def
           split: option.splits sum.splits)

lemma state_update_scenes:
  "update_scenes now d dt ctx = Returned d' \<or> update_scenes now d dt ctx = Raised e d' \<Longrightarrow>
   state d' = state d"
  by (auto simp: update_scenes_def Let_def split: option.splits if_splits
           dest!: state_complete_transition [of now _ d' e])

lemma state_check_scene_triggers:
  "check_scene_triggers d t = Returned d' \<or> check_scene_triggers d t = Raised e d' \<Longrightarrow>
   state d' = state d"
  by (auto simp: check_scene_triggers_def Let_def split: option.splits if_splits prod.splits
           dest!: state_transition_to [of _ _ d' e])

lemma budget_invoke:
  assumes "invoke d c = Returned d' \<or> invoke d c = Raised e d'"
    and "MIN_PARTICLE_BUDGET \<le> particle_budget (state d)"
  shows "MIN_PARTICLE_BUDGET \<le> particle_budget (state d')"
proof (cases c)
  case (RegisterScene name k)
  with assms show ?thesis by (auto simp: register_scene_def)
next
  case (TransitionTo name)
  with assms state_transition_to [of d name d' e] show ?thesis by auto
next
  case (CompleteTransition now)
  with assms state_complete_transition [of now d d' e] show ?thesis by auto
next
  case (UpdateScenes now dt ctx)
  with assms state_update_scenes [of now d dt ctx d' e] show ?thesis by auto
next
  case (RenderScenes console)
  with assms show ?thesis by (auto simp: render_scenes_def Let_def split: option.splits)
next
  case (CheckSceneTriggers t)
  with assms state_check_scene_triggers [of d t d' e] show ?thesis by auto
next
  case (UpdateLyric t)
  with assms show ?thesis by (auto simp: update_lyric_def split: option.splits)
next
  case (MonitorPerformance ft)
  with assms monitor_performance_budget_floor [of d ft] show ?thesis by auto
next
  case (QuerySceneTrigger t)
  with assms show ?thesis by (auto simp: query_scene_trigger_def split: option.splits)
next
  case (SetCurrentTime t)
  with assms show ?thesis by (auto simp: set_current_time_def)
next
  case (BuildFrame buffer beat width height)
  with assms show ?thesis by (auto simp: build_frame_def Let_def split: option.splits)
qed

lemma budget_invoke_all:
  "invoke_all d cs = Returned d' \<or> invoke_all d cs = Raised e d' \<Longrightarrow>
   MIN_PARTICLE_BUDGET \<le> particle_budget (state d) \<Longrightarrow>
   MIN_PARTICLE_BUDGET \<le> particle_budget (state d')"
proof (induction cs arbitrary: d)
  case Nil
  then show ?case by simp
next
  case (Cons c cs)
  show ?case
  proof (cases "invoke d c")
    case (Returned d1)
    then have "MIN_PARTICLE_BUDGET \<le> particle_budget (state d1)"
      using budget_invoke [of d c d1 e] Cons.prems(2) by simp
    moreover have "invoke_all d1 cs = Returned d' \<or> invoke_all d1 cs = Raised e d'"
      using Cons.prems(1) Returned by simp
    ultimately show ?thesis using Cons.IH by blast
  next
    case (Raised e1 d1)
    with Cons.prems(1) have "e1 = e" "d1 = d'" by auto
    with Raised show ?thesis using budget_invoke [of d c d' e] Cons.prems(2) by simp
  qed
qed

text \<open>
  Claim C7. \<^verbatim>\<open>monitor_performance\<close> sets the FPS to \<open>1 / frame_time\<close> when \<open>frame_time > 0\<close>
  and leaves it unchanged otherwise (no division by zero). It replaces the particle budget
  \<open>b\<close> by \<open>max 50 (int (b * 0.75))\<close> exactly when \<open>frame_time > FRAME_TIME * 1.5\<close>, where
  for \<open>b \<ge> 0\<close> the truncation is \<open>3 * b div 4\<close>. One call with \<open>frame_time = FRAME_TIME * 2\<close>
  on a new Director (budget 500) gives 375. No sequence of calls, of
  \<^verbatim>\<open>monitor_performance\<close> alone or mixed with the Director's other methods, takes the budget
  of a new Director below 50.
\<close>

theorem monitor_performance_governor:
  "fps (state (monitor_performance d ft)) = (if ft > 0 then 1 / ft else fps (state d))
   \<and> particle_budget (state (monitor_performance d ft)) =
       (if ft > FRAME_TIME * LAG_THRESHOLD_MULTIPLIER
        then max MIN_PARTICLE_BUDGET (py_int (real_of_int (particle_budget (state d)) * (3 / 4)))
        else particle_budget (state d))
   \<and> FRAME_TIME * LAG_THRESHOLD_MULTIPLIER = 1 / 20 \<and> MIN_PARTICLE_BUDGET = 50
   \<and> (\<forall>b. 0 \<le> b \<longrightarrow> py_int (real_of_int b * (3 / 4)) = (3 * b) div 4)
   \<and> particle_budget (state (Director_init lm)) = 500
   \<and> particle_budget (state (monitor_performance (Director_init lm) (FRAME_TIME * 2))) = 375
   \<and> (\<forall>fts. 50 \<le> particle_budget (state (foldl monitor_performance (Director_init lm) fts)))
   \<and> (\<forall>cs d' e. invoke_all (Director_init lm) cs = Returned d'
                 \<or> invoke_all (Director_init lm) cs = Raised e d' \<longrightarrow>
                 50 \<le> particle_budget (state d'))"
proof -
  have init: "MIN_PARTICLE_BUDGET \<le> particle_budget (state (Director_init lm))"
    by (simp add: Director_init_def MIN_PARTICLE_BUDGET_def INITIAL_PARTICLE_BUDGET_def)
  have a: "fps (state (monitor_performance d ft)) = (if ft > 0 then 1 / ft else fps (state d))"
    by (simp add: monitor_performance_def Let_def)
  have b: "particle_budget (state (monitor_performance d ft)) =
       (if ft > FRAME_TIME * LAG_THRESHOLD_MULTIPLIER
        then max MIN_PARTICLE_BUDGET (py_int (real_of_int (particle_budget (state d)) * (3 / 4)))
        else particle_budget (state d))"
    by (simp add: monitor_performance_def Let_def)
  have c: "FRAME_TIME * LAG_THRESHOLD_MULTIPLIER = 1 / 20 \<and> MIN_PARTICLE_BUDGET = 50"
    by (simp add: FRAME_TIME_def TARGET_FPS_def LAG_THRESHOLD_MULTIPLIER_def MIN_PARTICLE_BUDGET_def)
  have d: "\<forall>b. 0 \<le> b \<longrightarrow> py_int (real_of_int b * (3 / 4)) = (3 * b) div 4"
    using py_int_three_quarters by blast
  have e: "particle_budget (state (Director_init lm)) = 500"
    by (simp add: Director_init_def INITIAL_PARTICLE_BUDGET_def)
  have f: "particle_budget (state (monitor_performance (Director_init lm) (FRAME_TIME * 2))) = 375"
    by (simp add: monitor_performance_def Director_init_def Let_def py_int_def FRAME_TIME_def
          TARGET_FPS_def LAG_THRESHOLD_MULTIPLIER_def MIN_PARTICLE_BUDGET_def
          INITIAL_PARTICLE_BUDGET_def)
  have g: "\<forall>fts. 50 \<le> particle_budget (state (foldl monitor_performance (Director_init lm) fts))"
    using monitor_performance_fold_floor [OF init] c by simp
  have h: "\<forall>cs d' e. invoke_all (Director_init lm) cs = Returned d'
                 \<or> invoke_all (Director_init lm) cs = Raised e d' \<longrightarrow>
                 50 \<le> particle_budget (state d')"
    using budget_invoke_all init c by metis
  from a b c d e f g h show ?thesis by blast
qed

theorem monitor_performance_governor_witness:
  "fps (state (monitor_performance (Director_init (None :: real LyricMap option)) (1 / 10))) = 10
   \<and> fps (state (monitor_performance (Director_init (None :: real LyricMap option)) 0)) = 0
   \<and> particle_budget (state (monitor_performance (Director_init (None :: real LyricMap option)) (1 / 10))) = 375
   \<and> particle_budget (state (monitor_performance (Director_init (None :: real LyricMap option)) (1 / 30))) = 500
   \<and> 50 \<le> particle_budget (state (foldl monitor_performance (Director_init (None :: real LyricMap option))
                 [1, 1, 1, 1, 1, 1, 1, 1, 1, 1]))"
proof -
  note g = monitor_performance_governor [of "Director_init (None :: real LyricMap option)" _ "None :: real LyricMap option"]
  have t: "py_int 375 = 375"
    by (simp add: py_int_def)
  have a: "fps (state (monitor_performance (Director_init (None :: real LyricMap option)) (1 / 10))) = 10"
    using g [of "1 / 10"] by simp
  have b: "fps (state (monitor_performance (Director_init (None :: real LyricMap option)) 0)) = 0"
    using g [of 0] by (simp add: Director_init_def)
  have c: "particle_budget (state (monitor_performance (Director_init (None :: real LyricMap option)) (1 / 10))) = 375"
    using g [of "1 / 10"] t by simp
  have d: "particle_budget (state (monitor_performance (Director_init (None :: real LyricMap option)) (1 / 30))) = 500"
    using g [of "1 / 30"] by simp
  have e: "50 \<le> particle_budget (state (foldl monitor_performance (Director_init (None :: real LyricMap option))
                 [1, 1, 1, 1, 1, 1, 1, 1, 1, 1]))"
    using g [of 0] by blast
  from a b c d e show ?thesis by blast
qed

subsection \<open>Requesting a transition\<close>

text \<open>
  Claim C6. For a name that is not registered, \<^verbatim>\<open>transition_to\<close> raises \<^verbatim>\<open>ValueError\<close>
  ("Unknown scene: ...") and the Director at the raise is the Director before the call,
  in every field. For a registered name it returns, the pending name is that name, the
  alpha is 0, and no other field has changed.
\<close>

theorem transition_to_checks_registry:
  "(scenes d n = None \<longrightarrow>
      transition_to d n = Raised (ValueError (''Unknown scene: '' @ n)) d)
   \<and> (scenes d n \<noteq> None \<longrightarrow>
      (\<exists>d'. transition_to d n = Returned d'
         \<and> next_scene_name d' = Some n \<and> transition_alpha d' = 0
         \<and> d' = d\<lparr>next_scene_name := Some n, transition_alpha := 0\<rparr>
         \<and> current_scene d' = current_scene d
         \<and> transitioning_scene d' = transitioning_scene d
         \<and> scenes d' = scenes d \<and> calls d' = calls d))"
  by (simp add: transition_to_def)

theorem transition_to_checks_registry_witness:
  "scenes (register_scene (Director_init (None :: real LyricMap option)) ''intro'' SceneIntro) ''nope'' = None
   \<and> transition_to (register_scene (Director_init (None :: real LyricMap option)) ''intro'' SceneIntro) ''nope''
       = Raised (ValueError ''Unknown scene: nope'')
           (register_scene (Director_init (None :: real LyricMap option)) ''intro'' SceneIntro)
   \<and> scenes (register_scene (Director_init (None :: real LyricMap option)) ''intro'' SceneIntro) ''intro'' \<noteq> None
   \<and> (\<exists>d'. transition_to (register_scene (Director_init (None :: real LyricMap option)) ''intro'' SceneIntro) ''intro''
              = Returned d'
          \<and> next_scene_name d' = Some ''intro'' \<and> transition_alpha d' = 0
          \<and> current_scene d' = None)"
proof -
  let ?d = "register_scene (Director_init (None :: real LyricMap option)) ''intro'' SceneIntro"
  have u: "scenes ?d ''nope'' = None" and k: "scenes ?d ''intro'' \<noteq> None"
    by (simp_all add: register_scene_def Director_init_def)
  have cur: "current_scene ?d = None"
    by (simp add: register_scene_def Director_init_def)
  have a: "transition_to ?d ''nope'' = Raised (ValueError ''Unknown scene: nope'') ?d"
    using transition_to_checks_registry [of ?d "''nope''"] u by simp
  have b: "\<exists>d'. transition_to ?d ''intro'' = Returned d'
          \<and> next_scene_name d' = Some ''intro'' \<and> transition_alpha d' = 0
          \<and> current_scene d' = None"
    using transition_to_checks_registry [of ?d "''intro''"] k cur by auto
  from u a k b show ?thesis by blast
qed

subsection \<open>Invariants of the Director\<close>

lemma director_inv_init: "director_inv (Director_init lm)"
  by (simp add: director_inv_def Director_init_def)

lemma director_inv_register: "director_inv d \<Longrightarrow> director_inv (register_scene d name c)"
  by (auto simp: director_inv_def register_scene_def split: option.splits)

lemma director_inv_transition_to:
  "transition_to d n = Returned d' \<or> transition_to d n = Raised e d' \<Longrightarrow>
   director_inv d \<Longrightarrow> director_inv d'"
  by (auto simp: director_inv_def transition_to_def split: option.splits if_splits)

lemma list_all_mono_sid:
  "list_all (\<lambda>ev. event_sid ev < k) evs \<Longrightarrow> k \<le> k' \<Longrightarrow> list_all (\<lambda>ev. event_sid ev < k') evs"
  by (induction evs) auto

lemma director_inv_exit_current: "director_inv d \<Longrightarrow> director_inv (exit_current d)"
  by (auto simp: director_inv_def exit_current_def split: option.splits)

lemma director_inv_finish: "director_inv d \<Longrightarrow> director_inv (finish_transition now d)"
  by (auto simp: director_inv_def finish_transition_def split: option.splits)

lemma Scene_new_sid: "Scene_new c i ctx kw = Inr s \<Longrightarrow> sid s = i \<and> cls s = c \<and> scene_context s = ctx"
  by (auto simp: Scene_new_def split: option.splits if_splits)

lemma director_inv_complete_transition:
  assumes "complete_transition now d = Returned d' \<or> complete_transition now d = Raised e d'"
    and "director_inv d"
  shows "director_inv d'"
proof -
  from assms(2) have ts: "transitioning_scene d = None" by (simp add: director_inv_def)
  show ?thesis
  proof (cases "next_scene_name d")
    case None
    with assms ts show ?thesis
      by (auto simp: complete_transition_def intro: director_inv_finish)
  next
    case (Some n)
    with assms(2) obtain c where c: "scenes d n = Some c"
      by (auto simp: director_inv_def)
    let ?d1 = "exit_current d"
    have i1: "director_inv ?d1" using assms(2) by (rule director_inv_exit_current)
    let ?ctx = "\<lparr>console_width = 80, console_height = 24,
                  song_time = current_time (state d), scene_time = 0,
                  beat_intensity = 0, is_transitioning = False\<rparr>"
    let ?kw = "(case lyric_map d of
                  None \<Rightarrow> None
                | Some lm \<Rightarrow> if n = ''finale'' then Some (finale_message lm) else None)"
    show ?thesis
    proof (cases "Scene_new c (next_sid ?d1) ?ctx ?kw")
      case (Inl err)
      with assms(1) ts Some c have "d' = ?d1"
        by (simp add: complete_transition_def Let_def)
      with i1 show ?thesis by simp
    next
      case (Inr s)
      let ?d2 = "?d1\<lparr>current_scene := Some s, next_sid := Suc (next_sid ?d1),
                     calls := calls ?d1 @ [Construct (sid s) c ?ctx ?kw, Enter (sid s)]\<rparr>"
      from Inr have sid: "sid s = next_sid ?d1" by (simp add: Scene_new_sid)
      have "list_all (\<lambda>ev. event_sid ev < Suc (next_sid ?d1)) (calls ?d1)"
        using i1 by (auto simp: director_inv_def intro: list_all_mono_sid)
      then have "director_inv ?d2"
        using i1 sid by (auto simp: director_inv_def split: option.splits)
      then have "director_inv (finish_transition now ?d2)" by (rule director_inv_finish)
      moreover have "d' = finish_transition now ?d2"
        using assms(1) ts Some c Inr by (simp add: complete_transition_def Let_def)
      ultimately show ?thesis by simp
    qed
  qed
qed

lemma director_inv_update_scenes:
  assumes "update_scenes now d dt ctx = Returned d' \<or> update_scenes now d dt ctx = Raised e d'"
    and "director_inv d"
  shows "director_inv d'"
proof -
  let ?d1 = "(case current_scene d of
                  None \<Rightarrow> d
                | Some s \<Rightarrow> d\<lparr>calls := calls d @ [Update (sid s) dt ctx]\<rparr>)"
  have i1: "director_inv ?d1"
    using assms(2) by (auto simp: director_inv_def split: option.splits)
  then have ts: "transitioning_scene ?d1 = None" by (simp add: director_inv_def)
  show ?thesis
  proof (cases "next_scene_name ?d1")
    case None
    with assms(1) ts have "d' = ?d1" by (simp add: update_scenes_def Let_def)
    with i1 show ?thesis by simp
  next
    case (Some n)
    let ?d3 = "?d1\<lparr>transition_alpha := transition_alpha ?d1 + dt / FADE_DURATION\<rparr>"
    have i3: "director_inv ?d3"
      using i1 by (auto simp: director_inv_def split: option.splits)
    show ?thesis
    proof (cases "transition_alpha ?d3 \<ge> 1")
      case True
      with assms(1) ts Some
      have "complete_transition now ?d3 = Returned d' \<or> complete_transition now ?d3 = Raised e d'"
        by (simp add: update_scenes_def Let_def)
      then show ?thesis using i3 by (rule director_inv_complete_transition)
    next
      case False
      with assms(1) ts Some have "d' = ?d3" by (simp add: update_scenes_def Let_def)
      with i3 show ?thesis by simp
    qed
  qed
qed

lemma director_inv_render: "director_inv d \<Longrightarrow> director_inv (render_scenes d console)"
  by (auto simp: director_inv_def render_scenes_def split: option.splits)

lemma director_inv_check_scene_triggers:
  assumes "check_scene_triggers d t = Returned d' \<or> check_scene_triggers d t = Raised e d'"
    and "director_inv d"
  shows "director_inv d'"
proof (cases "lyric_map d")
  case None
  with assms show ?thesis by (simp add: check_scene_triggers_def)
next
  case (Some lm)
  obtain r lm' where g: "get_scene_trigger lm t = (r, lm')" by (cases "get_scene_trigger lm t")
  let ?d1 = "d\<lparr>lyric_map := Some lm'\<rparr>"
  have i1: "director_inv ?d1"
    using assms(2) by (auto simp: director_inv_def split: option.splits)
  from assms(1) Some g
  have "d' = ?d1 \<or> (\<exists>n. transition_to ?d1 n = Returned d' \<or> transition_to ?d1 n = Raised e d')"
    by (auto simp: check_scene_triggers_def Let_def split: option.splits if_splits)
  with i1 show ?thesis using director_inv_transition_to by blast
qed

lemma director_inv_update_lyric: "director_inv d \<Longrightarrow> director_inv (update_lyric d t)"
  by (auto simp: director_inv_def update_lyric_def split: option.splits)

lemma director_inv_monitor: "director_inv d \<Longrightarrow> director_inv (monitor_performance d ft)"
  by (auto simp: director_inv_def monitor_performance_def Let_def split: option.splits)

lemma director_inv_query_scene_trigger:
  "director_inv d \<Longrightarrow> director_inv (query_scene_trigger d t)"
  by (auto simp: director_inv_def query_scene_trigger_def split: option.splits)

lemma director_inv_set_current_time: "director_inv d \<Longrightarrow> director_inv (set_current_time d t)"
  by (auto simp: director_inv_def set_current_time_def split: option.splits)

lemma director_inv_build_frame:
  "director_inv d \<Longrightarrow> director_inv (build_frame d buffer beat width height)"
  by (auto simp: director_inv_def build_frame_def Let_def split: option.splits)

lemma director_inv_invoke:
  assumes "invoke d c = Returned d' \<or> invoke d c = Raised e d'" and "director_inv d"
  shows "director_inv d'"
proof (cases c)
  case (RegisterScene name k)
  with assms show ?thesis by (auto intro: director_inv_register)
next
  case (TransitionTo name)
  with assms director_inv_transition_to [of d name d' e] show ?thesis by auto
next
  case (CompleteTransition now)
  with assms director_inv_complete_transition [of now d d' e] show ?thesis by auto
next
  case (UpdateScenes now dt ctx)
  with assms director_inv_update_scenes [of now d dt ctx d' e] show ?thesis by auto
next
  case (RenderScenes console)
  with assms show ?thesis by (auto intro: director_inv_render)
next
  case (CheckSceneTriggers t)
  with assms director_inv_check_scene_triggers [of d t d' e] show ?thesis by auto
next
  case (UpdateLyric t)
  with assms show ?thesis by (auto intro: director_inv_update_lyric)
next
  case (MonitorPerformance ft)
  with assms show ?thesis by (auto intro: director_inv_monitor)
next
  case (QuerySceneTrigger t)
  with assms show ?thesis by (auto intro: director_inv_query_scene_trigger)
next
  case (SetCurrentTime t)
  with assms show ?thesis by (auto intro: director_inv_set_current_time)
next
  case (BuildFrame buffer beat width height)
  with assms show ?thesis by (auto intro: director_inv_build_frame)
qed

lemma director_inv_invoke_all:
  "invoke_all d cs = Returned d' \<or> invoke_all d cs = Raised e d' \<Longrightarrow>
   director_inv d \<Longrightarrow> director_inv d'"
proof (induction cs arbitrary: d)
  case Nil
  then show ?case by simp
next
  case (Cons c cs)
  show ?case
  proof (cases "invoke d c")
    case (Returned d1)
    then have "director_inv d1"
      using director_inv_invoke [of d c d1 e] Cons.prems(2) by simp
    moreover have "invoke_all d1 cs = Returned d' \<or> invoke_all d1 cs = Raised e d'"
      using Cons.prems(1) Returned by simp
    ultimately show ?thesis using Cons.IH by blast
  next
    case (Raised e1 d1)
    with Cons.prems(1) have "e1 = e" "d1 = d'" by auto
    with Raised show ?thesis using director_inv_invoke [of d c d' e] Cons.prems(2) by simp
  qed
qed

subsection \<open>Completing a transition\<close>

lemma complete_transition_calls:
  assumes inv: "director_inv d"
    and pend: "next_scene_name d = Some n"
    and ret: "complete_transition now d = Returned d'"
  shows "\<exists>c s ctx kw.
           scenes d n = Some c
         \<and> ctx = \<lparr>console_width = 80, console_height = 24,
                   song_time = current_time (state d), scene_time = 0,
                   beat_intensity = 0, is_transitioning = False\<rparr>
         \<and> kw = (case lyric_map d of
                   None \<Rightarrow> None
                 | Some lm \<Rightarrow> if n = ''finale'' then Some (finale_message lm) else None)
         \<and> Scene_new c (next_sid d) ctx kw = Inr s
         \<and> calls d' = calls d
              @ (case current_scene d of None \<Rightarrow> [] | Some old \<Rightarrow> [Exit (sid old)])
              @ [Construct (sid s) c ctx kw, Enter (sid s)]
         \<and> current_scene d' = Some s
         \<and> (\<forall>ev \<in> set (calls d). event_sid ev \<noteq> sid s)
         \<and> (\<forall>old. current_scene d = Some old \<longrightarrow> sid old \<noteq> sid s)
         \<and> next_scene_name d' = None \<and> transition_alpha d' = 0
         \<and> transitioning_scene d' = None"
proof -
  from inv have ts: "transitioning_scene d = None" by (simp add: director_inv_def)
  from inv pend obtain c where c: "scenes d n = Some c" by (auto simp: director_inv_def)
  let ?ctx = "\<lparr>console_width = 80, console_height = 24,
                song_time = current_time (state d), scene_time = 0,
                beat_intensity = 0, is_transitioning = False\<rparr>"
  let ?kw = "(case lyric_map d of
                None \<Rightarrow> None
              | Some lm \<Rightarrow> if n = ''finale'' then Some (finale_message lm) else None)"
  have nx: "next_sid (exit_current d) = next_sid d"
    by (simp add: exit_current_def split: option.splits)
  from ret ts pend c obtain s where
    s: "Scene_new c (next_sid d) ?ctx ?kw = Inr s"
    and d': "d' = finish_transition now
               ((exit_current d)\<lparr>current_scene := Some s, next_sid := Suc (next_sid d),
                  calls := calls (exit_current d) @ [Construct (sid s) c ?ctx ?kw, Enter (sid s)]\<rparr>)"
    by (auto simp: complete_transition_def Let_def nx split: sum.splits)
  from s have sid: "sid s = next_sid d" by (simp add: Scene_new_sid)
  have ex: "calls (exit_current d)
              = calls d @ (case current_scene d of None \<Rightarrow> [] | Some old \<Rightarrow> [Exit (sid old)])"
    by (simp add: exit_current_def split: option.splits)
  have fresh1: "\<forall>ev \<in> set (calls d). event_sid ev \<noteq> sid s"
    using inv sid by (auto simp: director_inv_def list_all_iff)
  have fresh2: "\<forall>old. current_scene d = Some old \<longrightarrow> sid old \<noteq> sid s"
    using inv sid by (auto simp: director_inv_def)
  have "calls d' = calls d
              @ (case current_scene d of None \<Rightarrow> [] | Some old \<Rightarrow> [Exit (sid old)])
              @ [Construct (sid s) c ?ctx ?kw, Enter (sid s)]"
    by (simp add: d' finish_transition_def ex)
  moreover have "current_scene d' = Some s \<and> next_scene_name d' = None
      \<and> transition_alpha d' = 0 \<and> transitioning_scene d' = None"
    using ts by (simp add: d' finish_transition_def exit_current_def split: option.splits)
  ultimately show ?thesis using c s fresh1 fresh2 by blast
qed

lemma complete_transition_returns:
  assumes "lyric_map d = None \<or> next_scene_name d \<noteq> Some ''finale''
           \<or> scenes d ''finale'' = None \<or> scenes d ''finale'' = Some SceneFinale"
  shows "\<exists>d'. complete_transition now d = Returned d'"
proof (cases "transitioning_scene d")
  case (Some ts)
  then show ?thesis by (simp add: complete_transition_def)
next
  case None
  then show ?thesis using assms
    by (auto simp: complete_transition_def Let_def Scene_new_def
             split: option.splits sum.splits if_splits)
qed

text \<open>
  Claim C5. Let \<open>d\<close> be any Director that holds no transitioning scene, whose pending
  name \<open>n\<close> is registered and whose scene objects are older than the next one constructed
  (\<open>director_inv\<close>; whatever its clock, scenes, contexts and earlier calls are). Every
  Director reached from a new one by method calls and by the writes of the main loop is
  such a Director. Let the transition complete, by a direct call of \<^verbatim>\<open>_complete_transition\<close> or inside
  \<^verbatim>\<open>update_scenes\<close> when the alpha reaches 1. Then \<open>n\<close> is registered with a class \<open>c\<close>; the calls
  made are, in this order, \<^verbatim>\<open>exit()\<close> on the current scene if there is one, the constructor
  of \<open>c\<close> with a context holding the current song time, and \<^verbatim>\<open>enter()\<close> on the object \<open>s\<close>
  constructed; \<open>s\<close> is a new object (no earlier call was about it and it is not the old
  scene) and is the current scene afterwards. When \<open>n\<close> is "finale" and the Director has a
  cue map, the constructor gets the keyword \<^verbatim>\<open>finale_message\<close> with the cue map's message, and
  gets no keyword otherwise. The completion returns unless a class other than
  \<^verbatim>\<open>SceneFinale\<close> is registered as "finale".
\<close>

theorem complete_transition_exit_then_enter:
  assumes inv: "director_inv (d :: ('t::{ord,uminus,one}) Director)"
    and pend: "next_scene_name d = Some n"
  shows "(\<forall>now d'. complete_transition now d = Returned d' \<longrightarrow>
           (\<exists>c s ctx kw.
               scenes d n = Some c
             \<and> ctx = \<lparr>console_width = 80, console_height = 24,
                       song_time = current_time (state d), scene_time = 0,
                       beat_intensity = 0, is_transitioning = False\<rparr>
             \<and> kw = (case lyric_map d of
                       None \<Rightarrow> None
                     | Some lm \<Rightarrow> if n = ''finale'' then Some (finale_message lm) else None)
             \<and> Scene_new c (next_sid d) ctx kw = Inr s
             \<and> calls d' = calls d
                  @ (case current_scene d of None \<Rightarrow> [] | Some old \<Rightarrow> [Exit (sid old)])
                  @ [Construct (sid s) c ctx kw, Enter (sid s)]
             \<and> current_scene d' = Some s
             \<and> (\<forall>ev \<in> set (calls d). event_sid ev \<noteq> sid s)
             \<and> (\<forall>old. current_scene d = Some old \<longrightarrow> sid old \<noteq> sid s)
             \<and> next_scene_name d' = None \<and> transition_alpha d' = 0))
       \<and> (\<forall>now dt tctx d'. update_scenes now d dt tctx = Returned d'
              \<and> transition_alpha d + dt / FADE_DURATION \<ge> 1 \<longrightarrow>
           (\<exists>c s ctx kw.
               scenes d n = Some c
             \<and> ctx = \<lparr>console_width = 80, console_height = 24,
                       song_time = current_time (state d), scene_time = 0,
                       beat_intensity = 0, is_transitioning = False\<rparr>
             \<and> kw = (case lyric_map d of
                       None \<Rightarrow> None
                     | Some lm \<Rightarrow> if n = ''finale'' then Some (finale_message lm) else None)
             \<and> Scene_new c (next_sid d) ctx kw = Inr s
             \<and> calls d' = calls d
                  @ (case current_scene d of None \<Rightarrow> [] | Some old \<Rightarrow> [Update (sid old) dt tctx])
                  @ (case current_scene d of None \<Rightarrow> [] | Some old \<Rightarrow> [Exit (sid old)])
                  @ [Construct (sid s) c ctx kw, Enter (sid s)]
             \<and> current_scene d' = Some s
             \<and> (\<forall>ev \<in> set (calls d). event_sid ev \<noteq> sid s)
             \<and> (\<forall>old. current_scene d = Some old \<longrightarrow> sid old \<noteq> sid s)
             \<and> next_scene_name d' = None \<and> transition_alpha d' = 0))
       \<and> (\<forall>lm. lyric_map d = Some lm \<and> n = ''finale'' \<longrightarrow>
             (\<forall>now d' s. complete_transition now d = Returned d' \<and> current_scene d' = Some s \<longrightarrow>
                scene_finale_message s = Some (finale_message lm)))
       \<and> (lyric_map d = None \<or> n \<noteq> ''finale'' \<or> scenes d n = Some SceneFinale \<longrightarrow>
             (\<forall>now. \<exists>d'. complete_transition now d = Returned d'))
       \<and> (\<forall>lm0 cs (d0 :: 't Director).
             invoke_all (Director_init lm0) cs = Returned d0 \<longrightarrow> director_inv d0)"
proof -
  have f: "director_inv d0"
    if "invoke_all (Director_init lm0) cs = Returned d0" for lm0 cs and d0 :: "'t Director"
    using that director_inv_invoke_all [of "Director_init lm0" cs d0] director_inv_init by blast
  have a: "\<exists>c s ctx kw.
               scenes d n = Some c
             \<and> ctx = \<lparr>console_width = 80, console_height = 24,
                       song_time = current_time (state d), scene_time = 0,
                       beat_intensity = 0, is_transitioning = False\<rparr>
             \<and> kw = (case lyric_map d of
                       None \<Rightarrow> None
                     | Some lm \<Rightarrow> if n = ''finale'' then Some (finale_message lm) else None)
             \<and> Scene_new c (next_sid d) ctx kw = Inr s
             \<and> calls d' = calls d
                  @ (case current_scene d of None \<Rightarrow> [] | Some old \<Rightarrow> [Exit (sid old)])
                  @ [Construct (sid s) c ctx kw, Enter (sid s)]
             \<and> current_scene d' = Some s
             \<and> (\<forall>ev \<in> set (calls d). event_sid ev \<noteq> sid s)
             \<and> (\<forall>old. current_scene d = Some old \<longrightarrow> sid old \<noteq> sid s)
             \<and> next_scene_name d' = None \<and> transition_alpha d' = 0"
    if "complete_transition now d = Returned d'" for now d'
  proof -
    from complete_transition_calls [OF inv pend that]
    obtain c s ctx kw where
      h: "scenes d n = Some c"
         "ctx = \<lparr>console_width = 80, console_height = 24,
                   song_time = current_time (state d), scene_time = 0,
                   beat_intensity = 0, is_transitioning = False\<rparr>"
         "kw = (case lyric_map d of
                   None \<Rightarrow> None
                 | Some lm \<Rightarrow> if n = ''finale'' then Some (finale_message lm) else None)"
         "Scene_new c (next_sid d) ctx kw = Inr s"
         "calls d' = calls d
              @ (case current_scene d of None \<Rightarrow> [] | Some old \<Rightarrow> [Exit (sid old)])
              @ [Construct (sid s) c ctx kw, Enter (sid s)]"
         "current_scene d' = Some s"
         "\<forall>ev \<in> set (calls d). event_sid ev \<noteq> sid s"
         "\<forall>old. current_scene d = Some old \<longrightarrow> sid old \<noteq> sid s"
         "next_scene_name d' = None" "transition_alpha d' = 0"
      by blast
    from h show ?thesis by blast
  qed
  have b: "\<exists>c s ctx kw.
               scenes d n = Some c
             \<and> ctx = \<lparr>console_width = 80, console_height = 24,
                       song_time = current_time (state d), scene_time = 0,
                       beat_intensity = 0, is_transitioning = False\<rparr>
             \<and> kw = (case lyric_map d of
                       None \<Rightarrow> None
                     | Some lm \<Rightarrow> if n = ''finale'' then Some (finale_message lm) else None)
             \<and> Scene_new c (next_sid d) ctx kw = Inr s
             \<and> calls d' = calls d
                  @ (case current_scene d of None \<Rightarrow> [] | Some old \<Rightarrow> [Update (sid old) dt tctx])
                  @ (case current_scene d of None \<Rightarrow> [] | Some old \<Rightarrow> [Exit (sid old)])
                  @ [Construct (sid s) c ctx kw, Enter (sid s)]
             \<and> current_scene d' = Some s
             \<and> (\<forall>ev \<in> set (calls d). event_sid ev \<noteq> sid s)
             \<and> (\<forall>old. current_scene d = Some old \<longrightarrow> sid old \<noteq> sid s)
             \<and> next_scene_name d' = None \<and> transition_alpha d' = 0"
    if u: "update_scenes now d dt tctx = Returned d' \<and> transition_alpha d + dt / FADE_DURATION \<ge> 1"
    for now dt tctx d'
  proof -
    let ?d1 = "(case current_scene d of
                  None \<Rightarrow> d
                | Some s \<Rightarrow> d\<lparr>calls := calls d @ [Update (sid s) dt tctx]\<rparr>)"
    let ?d3 = "?d1\<lparr>transition_alpha := transition_alpha ?d1 + dt / FADE_DURATION\<rparr>"
    have ts: "transitioning_scene ?d1 = None"
      using inv by (auto simp: director_inv_def split: option.splits)
    have same: "next_scene_name ?d1 = Some n" "transition_alpha ?d1 = transition_alpha d"
      "scenes ?d3 = scenes d" "state ?d3 = state d" "lyric_map ?d3 = lyric_map d"
      "next_sid ?d3 = next_sid d" "current_scene ?d3 = current_scene d"
      "calls ?d3 = calls d @ (case current_scene d of None \<Rightarrow> [] | Some old \<Rightarrow> [Update (sid old) dt tctx])"
      using pend by (auto split: option.splits)
    have inv3: "director_inv ?d3"
      using inv pend by (auto simp: director_inv_def split: option.splits)
    have pend3: "next_scene_name ?d3 = Some n" using same by simp
    from u have u1: "update_scenes now d dt tctx = Returned d'"
      and u2: "transition_alpha d + dt / FADE_DURATION \<ge> 1" by simp_all
    have "complete_transition now ?d3 = Returned d'"
      using u1 u2 ts same(1,2) by (simp add: update_scenes_def Let_def)
    from complete_transition_calls [OF inv3 pend3 this]
    obtain c s ctx kw where
      h: "scenes ?d3 n = Some c"
         "ctx = \<lparr>console_width = 80, console_height = 24,
                   song_time = current_time (state ?d3), scene_time = 0,
                   beat_intensity = 0, is_transitioning = False\<rparr>"
         "kw = (case lyric_map ?d3 of
                   None \<Rightarrow> None
                 | Some lm \<Rightarrow> if n = ''finale'' then Some (finale_message lm) else None)"
         "Scene_new c (next_sid ?d3) ctx kw = Inr s"
         "calls d' = calls ?d3
              @ (case current_scene ?d3 of None \<Rightarrow> [] | Some old \<Rightarrow> [Exit (sid old)])
              @ [Construct (sid s) c ctx kw, Enter (sid s)]"
         "current_scene d' = Some s"
         "\<forall>ev \<in> set (calls ?d3). event_sid ev \<noteq> sid s"
         "\<forall>old. current_scene ?d3 = Some old \<longrightarrow> sid old \<noteq> sid s"
         "next_scene_name d' = None" "transition_alpha d' = 0"
      by blast
    have 1: "ctx = \<lparr>console_width = 80, console_height = 24,
                   song_time = current_time (state d), scene_time = 0,
                   beat_intensity = 0, is_transitioning = False\<rparr>" using h(2) same by simp
    have 2: "\<forall>ev \<in> set (calls d). event_sid ev \<noteq> sid s" using h(7) same(8) by simp
    have 3: "calls d' = calls d
                  @ (case current_scene d of None \<Rightarrow> [] | Some old \<Rightarrow> [Update (sid old) dt tctx])
                  @ (case current_scene d of None \<Rightarrow> [] | Some old \<Rightarrow> [Exit (sid old)])
                  @ [Construct (sid s) c ctx kw, Enter (sid s)]"
      using h(5) same(7,8) by simp
    from h(1,3,4,6,8,9,10) 1 2 3 same(3,5,6,7) show ?thesis by auto
  qed
  have c: "scene_finale_message s = Some (finale_message lm)"
    if "lyric_map d = Some lm \<and> n = ''finale''"
      and "complete_transition now d = Returned d' \<and> current_scene d' = Some s" for lm now d' s
  proof -
    from a [of now d'] that obtain c s1 ctx where
      "Scene_new c (next_sid d) ctx (Some (finale_message lm)) = Inr s1" "current_scene d' = Some s1"
      by auto
    with that show ?thesis by (auto simp: Scene_new_def split: if_splits)
  qed
  have e: "\<exists>d'. complete_transition now d = Returned d'"
    if "lyric_map d = None \<or> n \<noteq> ''finale'' \<or> scenes d n = Some SceneFinale" for now
    using that pend by (intro complete_transition_returns) auto
  from a b c e f show ?thesis by blast
qed

subsection \<open>The started Director\<close>

lemma startup_director:
  "invoke_all (Director_init lm) startup_calls =
     Returned ((Director_init lm)
       \<lparr>scenes := [''intro'' \<mapsto> SceneIntro, ''starfield'' \<mapsto> SceneStarfield, ''finale'' \<mapsto> SceneFinale],
        current_scene := Some \<lparr>sid = 0, cls = SceneIntro, scene_context = initial_context,
                                scene_finale_message = None\<rparr>,
        calls := [Construct 0 SceneIntro initial_context None, Enter 0],
        next_sid := 1\<rparr>)"
  by (cases lm) (simp_all add: startup_calls_def Director_init_def register_scene_def transition_to_def
        complete_transition_def exit_current_def finish_transition_def Scene_new_def
        initial_context_def Let_def)

lemma invoke_all_append:
  "invoke_all d (cs @ cs') =
     (case invoke_all d cs of
        Returned d' \<Rightarrow> invoke_all d' cs'
      | Raised e d' \<Rightarrow> Raised e d')"
  by (induction cs arbitrary: d) (auto split: outcome.splits)

theorem complete_transition_exit_then_enter_witness:
  "\<exists>d d' s.
      invoke_all (Director_init (Some scenario_map))
        (startup_calls @ [SetCurrentTime 12, BuildFrame 7 (1 / 2) 100 30, TransitionTo ''finale''])
        = Returned d
    \<and> director_inv d
    \<and> next_scene_name d = Some ''finale''
    \<and> current_time (state d) = 12
    \<and> complete_transition 40 d = Returned d'
    \<and> current_scene d' = Some s
    \<and> sid s = 1 \<and> cls s = SceneFinale
    \<and> scene_finale_message s = Some default_finale_message
    \<and> calls d' = [Construct 0 SceneIntro initial_context None, Enter 0, Render 0 7 1, Exit 0,
                   Construct 1 SceneFinale finale_context (Some default_finale_message), Enter 1]"
proof -
  let ?cs = "startup_calls @ [SetCurrentTime 12, BuildFrame 7 (1 / 2) 100 30, TransitionTo ''finale'']"
  have fm: "finale_message scenario_map = default_finale_message"
    by (simp add: scenario_map_def LyricMap_init_def)
  have "\<exists>d. invoke_all (Director_init (Some scenario_map)) ?cs = Returned d
          \<and> next_scene_name d = Some ''finale''
          \<and> lyric_map d = Some scenario_map
          \<and> scenes d ''finale'' = Some SceneFinale
          \<and> current_time (state d) = 12
          \<and> next_sid d = 1
          \<and> calls d = [Construct 0 SceneIntro initial_context None, Enter 0, Render 0 7 1]
          \<and> (\<exists>sc. current_scene d = Some sc \<and> sid sc = 0)"
    unfolding invoke_all_append startup_director
    by (simp add: set_current_time_def build_frame_def transition_to_def Director_init_def Let_def)
  then obtain d sc where
    reach: "invoke_all (Director_init (Some scenario_map)) ?cs = Returned d"
    and pend: "next_scene_name d = Some ''finale''"
    and lm: "lyric_map d = Some scenario_map"
    and reg: "scenes d ''finale'' = Some SceneFinale"
    and ct: "current_time (state d) = 12"
    and nx: "next_sid d = 1"
    and cl: "calls d = [Construct 0 SceneIntro initial_context None, Enter 0, Render 0 7 1]"
    and cur: "current_scene d = Some sc" "sid sc = 0"
    by blast
  have inv: "director_inv d"
    using reach director_inv_invoke_all [of "Director_init (Some scenario_map)" ?cs d]
      director_inv_init by blast
  note c5 = complete_transition_exit_then_enter [OF inv pend]
  note direct = c5 [THEN conjunct1, rule_format]
  note total = c5 [THEN conjunct2, THEN conjunct2, THEN conjunct2, THEN conjunct1, rule_format]
  obtain d' where ret: "complete_transition 40 d = Returned d'"
    using total [of 40] reg by auto
  from direct [OF ret] obtain c s ctx kw where
    h: "scenes d ''finale'' = Some c"
       "ctx = \<lparr>console_width = 80, console_height = 24,
                 song_time = current_time (state d), scene_time = 0,
                 beat_intensity = 0, is_transitioning = False\<rparr>"
       "kw = (case lyric_map d of
                 None \<Rightarrow> None
               | Some lm \<Rightarrow> if ''finale'' = ''finale'' then Some (finale_message lm) else None)"
       "Scene_new c (next_sid d) ctx kw = Inr s"
       "calls d' = calls d
            @ (case current_scene d of None \<Rightarrow> [] | Some old \<Rightarrow> [Exit (sid old)])
            @ [Construct (sid s) c ctx kw, Enter (sid s)]"
       "current_scene d' = Some s"
    by (elim exE conjE)
  have c: "c = SceneFinale" using h(1) reg by simp
  have kw: "kw = Some default_finale_message" using h(3) lm fm by simp
  have ctx: "ctx = finale_context" using h(2) ct by (simp add: finale_context_def)
  have s: "s = \<lparr>sid = 1, cls = SceneFinale, scene_context = finale_context,
                  scene_finale_message = Some default_finale_message\<rparr>"
    using h(4) by (auto simp: Scene_new_def c kw ctx nx)
  have "calls d' = [Construct 0 SceneIntro initial_context None, Enter 0, Render 0 7 1, Exit 0,
                   Construct 1 SceneFinale finale_context (Some default_finale_message), Enter 1]"
    using h(5) by (simp add: s c kw ctx cl cur)
  moreover have "sid s = 1 \<and> cls s = SceneFinale
      \<and> scene_finale_message s = Some default_finale_message"
    by (simp add: s)
  ultimately show ?thesis using reach inv pend ct ret h(6) by blast
qed

subsection \<open>A pending transition on screen\<close>

lemma render_scenes_reachable:
  assumes "invoke_all (Director_init lm) cs = Returned d"
  shows "transitioning_scene d = None"
    and "render_scenes d console =
           (case current_scene d of
              None \<Rightarrow> d
            | Some s \<Rightarrow> d\<lparr>calls := calls d @ [Render (sid s) console 1]\<rparr>)"
proof -
  have "director_inv d"
    using assms director_inv_invoke_all [of "Director_init lm" cs d] director_inv_init by blast
  then show ts: "transitioning_scene d = None" by (simp add: director_inv_def)
  then show "render_scenes d console =
           (case current_scene d of
              None \<Rightarrow> d
            | Some s \<Rightarrow> d\<lparr>calls := calls d @ [Render (sid s) console 1]\<rparr>)"
    by (simp add: render_scenes_def split: option.splits)
qed

text \<open>
  Claim C1 (the code departs from it). \<^verbatim>\<open>render_scenes\<close> blends only when the Director
  holds a \<^verbatim>\<open>transitioning_scene\<close>, and \<^verbatim>\<open>update_scenes\<close> updates a second scene only then; but
  \<^verbatim>\<open>transition_to\<close> records the pending name alone, and no method ever stores a scene in
  \<^verbatim>\<open>transitioning_scene\<close> (\<open>render_scenes_reachable\<close>). Run on the started Director: after
  \<^verbatim>\<open>transition_to("starfield")\<close>, one \<^verbatim>\<open>update_scenes(1/30)\<close> and one \<^verbatim>\<open>render_scenes\<close>, the
  transition is pending with alpha 1/15, no starfield scene exists, only the intro scene
  (object 0) was updated, and it was rendered alone at alpha 1, not at 14/15 under a
  second scene at 1/15.
\<close>

theorem pending_transition_shows_current_scene_only:
  "\<exists>d. invoke_all (Director_init lm)
           (startup_calls @
            [TransitionTo ''starfield'', UpdateScenes 3 (1 / 30) frame_context, RenderScenes 7])
          = Returned d
      \<and> next_scene_name d = Some ''starfield''
      \<and> transition_alpha d = 1 / 15
      \<and> transitioning_scene d = None
      \<and> current_scene d = Some \<lparr>sid = 0, cls = SceneIntro, scene_context = initial_context,
                                 scene_finale_message = None\<rparr>
      \<and> calls d = [Construct 0 SceneIntro initial_context None, Enter 0,
                   Update 0 (1 / 30) frame_context, Render 0 7 1]"
  unfolding invoke_all_append startup_director
  by (simp add: transition_to_def update_scenes_def render_scenes_def Director_init_def
        FADE_DURATION_def Let_def)

subsection \<open>The transition alpha\<close>

lemma complete_transition_resets:
  "complete_transition now d = Returned d' \<Longrightarrow>
   transition_alpha d' = 0 \<and> next_scene_name d' = None"
  by (auto simp: complete_transition_def finish_transition_def Let_def
           split: option.splits sum.splits)

lemma update_scenes_alpha:
  assumes "update_scenes now d dt ctx = Returned d'"
  shows "next_scene_name d = None \<Longrightarrow> transition_alpha d' = transition_alpha d"
    and "next_scene_name d = Some n \<Longrightarrow> transition_alpha d + dt / FADE_DURATION \<ge> 1 \<Longrightarrow>
           transition_alpha d' = 0 \<and> next_scene_name d' = None"
    and "next_scene_name d = Some n \<Longrightarrow> \<not> transition_alpha d + dt / FADE_DURATION \<ge> 1 \<Longrightarrow>
           transition_alpha d' = transition_alpha d + dt / FADE_DURATION
           \<and> next_scene_name d' = Some n"
proof -
  let ?d1 = "(case current_scene d of
                None \<Rightarrow> d
              | Some s \<Rightarrow> d\<lparr>calls := calls d @ [Update (sid s) dt ctx]\<rparr>)"
  let ?d2 = "(case transitioning_scene ?d1 of
                None \<Rightarrow> ?d1
              | Some s \<Rightarrow> ?d1\<lparr>calls := calls ?d1 @ [Update (sid s) dt ctx]\<rparr>)"
  have same: "next_scene_name ?d2 = next_scene_name d" "transition_alpha ?d2 = transition_alpha d"
    by (auto split: option.splits)
  let ?d3 = "?d2\<lparr>transition_alpha := transition_alpha ?d2 + dt / FADE_DURATION\<rparr>"
  show "next_scene_name d = None \<Longrightarrow> transition_alpha d' = transition_alpha d"
    using assms same by (simp add: update_scenes_def Let_def)
  show "next_scene_name d = Some n \<Longrightarrow> transition_alpha d + dt / FADE_DURATION \<ge> 1 \<Longrightarrow>
           transition_alpha d' = 0 \<and> next_scene_name d' = None"
  proof -
    assume "next_scene_name d = Some n" "transition_alpha d + dt / FADE_DURATION \<ge> 1"
    then have "complete_transition now ?d3 = Returned d'"
      using assms same by (simp add: update_scenes_def Let_def)
    then show ?thesis by (rule complete_transition_resets)
  qed
  show "next_scene_name d = Some n \<Longrightarrow> \<not> transition_alpha d + dt / FADE_DURATION \<ge> 1 \<Longrightarrow>
           transition_alpha d' = transition_alpha d + dt / FADE_DURATION
           \<and> next_scene_name d' = Some n"
  proof -
    assume "next_scene_name d = Some n" "\<not> transition_alpha d + dt / FADE_DURATION \<ge> 1"
    then have "d' = ?d3"
      using assms same by (simp add: update_scenes_def Let_def)
    then show ?thesis using same \<open>next_scene_name d = Some n\<close> by simp
  qed
qed

lemma update_scenes_returns:
  assumes "lyric_map d = None \<or> scenes d ''finale'' = None \<or> scenes d ''finale'' = Some SceneFinale"
  shows "\<exists>d'. update_scenes now d dt ctx = Returned d'"
proof -
  let ?d1 = "(case current_scene d of
                None \<Rightarrow> d
              | Some s \<Rightarrow> d\<lparr>calls := calls d @ [Update (sid s) dt ctx]\<rparr>)"
  let ?d2 = "(case transitioning_scene ?d1 of
                None \<Rightarrow> ?d1
              | Some s \<Rightarrow> ?d1\<lparr>calls := calls ?d1 @ [Update (sid s) dt ctx]\<rparr>)"
  let ?d3 = "?d2\<lparr>transition_alpha := transition_alpha ?d2 + dt / FADE_DURATION\<rparr>"
  have same: "lyric_map ?d3 = lyric_map d" "scenes ?d3 = scenes d"
    by (auto split: option.splits)
  have "\<exists>d'. complete_transition now ?d3 = Returned d'"
    using assms same by (intro complete_transition_returns) auto
  then show ?thesis
    by (auto simp: update_scenes_def Let_def split: option.splits)
qed

lemma alpha_invoke:
  assumes "invoke d c = Returned d'"
    and "\<forall>dt \<in> set (tick_durations [c]). 0 \<le> dt"
    and "0 \<le> transition_alpha d \<and> transition_alpha d < 1"
  shows "0 \<le> transition_alpha d' \<and> transition_alpha d' < 1"
proof (cases c)
  case (RegisterScene name k)
  with assms show ?thesis by (auto simp: register_scene_def)
next
  case (TransitionTo name)
  with assms show ?thesis by (auto simp: transition_to_def split: if_splits)
next
  case (CompleteTransition now)
  with assms complete_transition_resets [of now d d'] show ?thesis by auto
next
  case (UpdateScenes now dt ctx)
  with assms have u: "update_scenes now d dt ctx = Returned d'" and dt: "0 \<le> dt" by auto
  show ?thesis
  proof (cases "next_scene_name d")
    case None
    with update_scenes_alpha(1) [OF u] assms(3) show ?thesis by simp
  next
    case (Some n)
    show ?thesis
    proof (cases "transition_alpha d + dt / FADE_DURATION \<ge> 1")
      case True
      with update_scenes_alpha(2) [OF u Some] show ?thesis by simp
    next
      case False
      with update_scenes_alpha(3) [OF u Some]
      have "transition_alpha d' = transition_alpha d + dt / FADE_DURATION" by simp
      moreover have "0 \<le> dt / FADE_DURATION" using dt by (simp add: FADE_DURATION_def)
      ultimately show ?thesis using False assms(3) by simp
    qed
  qed
next
  case (RenderScenes console)
  with assms show ?thesis by (auto simp: render_scenes_def Let_def split: option.splits)
next
  case (CheckSceneTriggers t)
  with assms show ?thesis
    by (auto simp: check_scene_triggers_def transition_to_def Let_def
             split: option.splits if_splits prod.splits)
next
  case (UpdateLyric t)
  with assms show ?thesis by (auto simp: update_lyric_def split: option.splits)
next
  case (MonitorPerformance ft)
  with assms show ?thesis by (auto simp: monitor_performance_def Let_def)
next
  case (QuerySceneTrigger t)
  with assms show ?thesis by (auto simp: query_scene_trigger_def split: option.splits)
next
  case (SetCurrentTime t)
  with assms show ?thesis by (auto simp: set_current_time_def)
next
  case (BuildFrame buffer beat width height)
  with assms show ?thesis by (auto simp: build_frame_def Let_def split: option.splits)
qed

lemma tick_durations_Cons:
  "set (tick_durations (c # cs)) = set (tick_durations [c]) \<union> set (tick_durations cs)"
  by (cases c) auto

lemma alpha_invoke_all:
  "invoke_all d cs = Returned d' \<Longrightarrow> \<forall>dt \<in> set (tick_durations cs). 0 \<le> dt \<Longrightarrow>
   0 \<le> transition_alpha d \<and> transition_alpha d < 1 \<Longrightarrow>
   0 \<le> transition_alpha d' \<and> transition_alpha d' < 1"
proof (induction cs arbitrary: d)
  case Nil
  then show ?case by simp
next
  case (Cons c cs)
  from Cons.prems(1) obtain d1 where
    s: "invoke d c = Returned d1" and r: "invoke_all d1 cs = Returned d'"
    by (auto split: outcome.splits)
  from Cons.prems(2) have t1: "\<forall>dt \<in> set (tick_durations [c]). 0 \<le> dt"
    and t2: "\<forall>dt \<in> set (tick_durations cs). 0 \<le> dt"
    by (auto simp: tick_durations_Cons [of c cs])
  have "0 \<le> transition_alpha d1 \<and> transition_alpha d1 < 1"
    using s t1 Cons.prems(3) by (rule alpha_invoke)
  with r t2 show ?case by (rule Cons.IH)
qed

text \<open>
  Claim C4. After any calls on a new Director whose \<^verbatim>\<open>update_scenes\<close> calls have frame
  durations \<open>dt \<ge> 0\<close> (the main loop passes the constant \<^verbatim>\<open>FRAME_TIME\<close>), the alpha is in
  \<open>[0, 1]\<close>, and in fact below 1. \<^verbatim>\<open>FADE_DURATION\<close> is 0.5. A tick with a pending name adds
  \<open>dt / FADE_DURATION\<close> to the alpha; when the sum is at least 1 the transition completes
  in that tick, leaving alpha 0 and no pending name; a tick without pending name leaves
  the alpha as it is. The tick returns unless a class other than \<^verbatim>\<open>SceneFinale\<close> is
  registered as "finale".
\<close>

theorem transition_alpha_in_unit_interval:
  "(\<forall>cs d. invoke_all (Director_init lm) cs = Returned d
           \<and> (\<forall>dt \<in> set (tick_durations cs). 0 \<le> dt) \<longrightarrow>
           0 \<le> transition_alpha d \<and> transition_alpha d \<le> 1 \<and> transition_alpha d < 1)
   \<and> FADE_DURATION = 1 / 2
   \<and> (\<forall>now d dt ctx d' n. next_scene_name d = Some n \<and> update_scenes now d dt ctx = Returned d' \<longrightarrow>
         (if transition_alpha d + dt / FADE_DURATION \<ge> 1
          then transition_alpha d' = 0 \<and> next_scene_name d' = None
          else transition_alpha d' = transition_alpha d + dt / FADE_DURATION
               \<and> next_scene_name d' = Some n))
   \<and> (\<forall>now d dt ctx d'. next_scene_name d = None \<and> update_scenes now d dt ctx = Returned d' \<longrightarrow>
         transition_alpha d' = transition_alpha d)
   \<and> (\<forall>now d dt ctx. lyric_map d = None \<or> scenes d ''finale'' = None
                      \<or> scenes d ''finale'' = Some SceneFinale \<longrightarrow>
         (\<exists>d'. update_scenes now d dt ctx = Returned d'))"
proof -
  have init: "0 \<le> transition_alpha (Director_init lm) \<and> transition_alpha (Director_init lm) < 1"
    by (simp add: Director_init_def)
  have a: "0 \<le> transition_alpha d \<and> transition_alpha d \<le> 1 \<and> transition_alpha d < 1"
    if "invoke_all (Director_init lm) cs = Returned d \<and> (\<forall>dt \<in> set (tick_durations cs). 0 \<le> dt)"
    for cs d
    using alpha_invoke_all [of "Director_init lm" cs d] that init by auto
  have b: "FADE_DURATION = 1 / 2" by (simp add: FADE_DURATION_def)
  have c: "(if transition_alpha d + dt / FADE_DURATION \<ge> 1
          then transition_alpha d' = 0 \<and> next_scene_name d' = None
          else transition_alpha d' = transition_alpha d + dt / FADE_DURATION
               \<and> next_scene_name d' = Some n)"
    if "next_scene_name d = Some n \<and> update_scenes now d dt ctx = Returned d'"
    for now d dt ctx d' n
    using that update_scenes_alpha(2,3) [of now d dt ctx d' n] by auto
  have e: "transition_alpha d' = transition_alpha d"
    if "next_scene_name d = None \<and> update_scenes now d dt ctx = Returned d'"
    for now d dt ctx d'
    using that update_scenes_alpha(1) [of now d dt ctx d'] by auto
  have f: "\<exists>d'. update_scenes now d dt ctx = Returned d'"
    if "lyric_map d = None \<or> scenes d ''finale'' = None \<or> scenes d ''finale'' = Some SceneFinale"
    for now :: real and d dt ctx
    using that by (rule update_scenes_returns)
  from a b c e f show ?thesis by blast
qed

theorem transition_alpha_in_unit_interval_witness:
  "\<exists>d1 d2.
      invoke_all (Director_init (None :: real LyricMap option))
        (startup_calls @ [TransitionTo ''starfield'', UpdateScenes 1 (1 / 4) frame_context])
        = Returned d1
    \<and> (\<forall>dt \<in> set (tick_durations
          (startup_calls @ [TransitionTo ''starfield'', UpdateScenes 1 (1 / 4) frame_context])).
          0 \<le> dt)
    \<and> next_scene_name d1 = Some ''starfield''
    \<and> transition_alpha d1 = 1 / 2 \<and> 0 \<le> transition_alpha d1 \<and> transition_alpha d1 < 1
    \<and> update_scenes 2 d1 (1 / 4) frame_context = Returned d2
    \<and> transition_alpha d2 = 0 \<and> next_scene_name d2 = None"
proof -
  let ?cs = "startup_calls @ [TransitionTo ''starfield'', UpdateScenes 1 (1 / 4) frame_context]"
  note c4 = transition_alpha_in_unit_interval [of "None :: real LyricMap option"]
  note bounds = c4 [THEN conjunct1, rule_format]
  note tick = c4 [THEN conjunct2, THEN conjunct2, THEN conjunct1, rule_format]
  note total = c4 [THEN conjunct2, THEN conjunct2, THEN conjunct2, THEN conjunct2, rule_format]
  have "\<exists>d1. invoke_all (Director_init (None :: real LyricMap option)) ?cs = Returned d1
          \<and> next_scene_name d1 = Some ''starfield'' \<and> transition_alpha d1 = 1 / 2
          \<and> lyric_map d1 = None"
    unfolding invoke_all_append startup_director
    by (simp add: transition_to_def update_scenes_def Director_init_def FADE_DURATION_def Let_def)
  then obtain d1 where
    r: "invoke_all (Director_init (None :: real LyricMap option)) ?cs = Returned d1"
    and p: "next_scene_name d1 = Some ''starfield''"
    and a: "transition_alpha d1 = 1 / 2"
    and l: "lyric_map d1 = None"
    by blast
  have t: "\<forall>dt \<in> set (tick_durations ?cs). 0 \<le> dt"
    by (simp add: startup_calls_def)
  have b: "0 \<le> transition_alpha d1 \<and> transition_alpha d1 \<le> 1 \<and> transition_alpha d1 < 1"
    using bounds [of ?cs d1] r t by blast
  obtain d2 where u: "update_scenes 2 d1 (1 / 4) frame_context = Returned d2"
    using total [of d1 2 "1 / 4" frame_context] l by blast
  have "transition_alpha d1 + (1 / 4) / FADE_DURATION \<ge> 1"
    by (simp add: a FADE_DURATION_def)
  then have "transition_alpha d2 = 0 \<and> next_scene_name d2 = None"
    using tick [of d1 "''starfield''" 2 "1 / 4" frame_context d2] p u by simp
  with r t p a b u show ?thesis by blast
qed

section \<open>Loading the assets\<close>

text \<open>
  Claim C8 (the code departs from it). When the lyrics file does not exist, \<^verbatim>\<open>load_assets\<close>
  calls \<^verbatim>\<open>LyricMap(lyrics=[], finale_message=...)\<close>. \<^verbatim>\<open>LyricMap.__init__\<close> has no parameter
  \<^verbatim>\<open>lyrics\<close> (the list parameter is \<^verbatim>\<open>entries\<close>), so the call raises \<^verbatim>\<open>TypeError\<close>, outside the
  \<^verbatim>\<open>try\<close> block: \<^verbatim>\<open>load_assets\<close> raises instead of returning an empty cue map, whatever the
  audio file is. The call with the parameter's name would return the empty map with the
  default finale message.
\<close>

theorem load_assets_missing_lyrics_raises:
  "load_assets False loaded audio_exists audio_path
     = Inl (TypeError ''__init__() got an unexpected keyword argument lyrics'')
   \<and> LyricMap_call [(''entries'', PyList []), (''finale_message'', PyStr default_finale_message)]
     = Inr \<lparr>entries = [], duration = 180, finale_message = default_finale_message,
            last_triggered_scene_time = None\<rparr>"
  by (simp add: load_assets_def LyricMap_call_def LyricMap_params_def LyricMap_init_def
        py_sorted_key_def)

end
